theory Spec2Isabelle
  imports Complex_Main
begin

section \<open>Data model\<close>

text \<open>
  The Python sources compute with \<open>float\<close>. The embedding reads a float as a
  \<^typ>\<open>real\<close> and a float operation as the exact operation on reals, with one
  exception: where rounding decides whether the program raises. That place is the
  argument of \<open>math.sqrt\<close> in \<open>haversine_distance_m\<close>, and the rounding error made there
  is a parameter of the model. Infinities and NaN are outside the model. Object
  attributes become record fields: \<open>Package.id\<close>, \<open>Package.status\<close>, \<open>Driver.id\<close> and
  \<open>Driver.status\<close> carry a prefix because record fields share one name space, and the
  private attributes \<open>_cursor\<close>, \<open>_route\<close>, \<open>_packages\<close> of \<open>DriverAgent\<close> lose their
  underscore.
\<close>

text \<open>
  The exceptions of the model, all of them instances of Python's \<open>Exception\<close>:
  \<open>ValueError\<close> is the math domain error of \<open>math.sqrt\<close>, \<open>Exception\<close> any other.
\<close>

datatype exception = ValueError | Exception string

subsection \<open>models/location.py\<close>

record Location =
  lat :: real
  lon :: real
  address :: "string option"

text \<open>\<open>math.radians\<close> and \<open>math.atan2\<close>, the latter on all four quadrants.\<close>

definition radians :: "real \<Rightarrow> real" where
  "radians x = x * (pi / 180)"

definition atan2 :: "real \<Rightarrow> real \<Rightarrow> real" where
  "atan2 y x =
     (if 0 < x then arctan (y / x)
      else if x < 0 then (if 0 \<le> y then arctan (y / x) + pi else arctan (y / x) - pi)
      else if 0 < y then pi / 2
      else if y < 0 then - (pi / 2)
      else 0)"

text \<open>The exact value of \<open>a\<close>, the right-hand side of line 16.\<close>

definition haversine_a :: "Location \<Rightarrow> Location \<Rightarrow> real" where
  "haversine_a self other =
     (let lat1 = radians (lat self); lon1 = radians (lon self);
          lat2 = radians (lat other); lon2 = radians (lon other);
          dlat = lat2 - lat1;
          dlon = lon2 - lon1
      in (sin (dlat / 2))\<^sup>2 + cos lat1 * cos lat2 * (sin (dlon / 2))\<^sup>2)"

text \<open>
  The float \<open>a\<close> that the machine computes differs from the exact value by a rounding
  error, which depends on the two locations. A \<open>rounding\<close> gives that error; nothing is
  assumed about it, and \<open>exact\<close> is the rounding without error. The exact value lies
  between 0 and 1 (lemma \<open>haversine_a_range\<close>), the float need not: for two antipodal
  points it can exceed 1 by one unit in the last place, and then \<open>math.sqrt(1 - a)\<close>
  raises \<open>ValueError\<close>, as \<open>math.sqrt(a)\<close> does for a negative \<open>a\<close>.
\<close>

type_synonym rounding = "Location \<Rightarrow> Location \<Rightarrow> real"

definition exact :: rounding where
  "exact self other = 0"

definition haversine_distance_m :: "rounding \<Rightarrow> Location \<Rightarrow> Location \<Rightarrow> exception + real" where
  "haversine_distance_m rnd self other =
     (let R = 6371000;
          a = haversine_a self other + rnd self other
      in if a < 0 \<or> 1 - a < 0 then Inl ValueError
         else let c = 2 * atan2 (sqrt a) (sqrt (1 - a))
              in Inr (R * c))"

subsection \<open>models/package.py\<close>

datatype PackageStatus = PENDING | ASSIGNED | IN_TRANSIT | DELIVERED

record Package =
  pkg_id :: string
  pickup :: Location
  dropoff :: Location
  created_at :: real
  assigned_to :: "string option"
  pkg_status :: PackageStatus
  priority :: int

text \<open>
  The constructor call \<open>Package(id=..., pickup=..., dropoff=...)\<close> with every other
  field at its default; the creation time is whatever the clock says.
\<close>

definition new_package :: "string \<Rightarrow> Location \<Rightarrow> Location \<Rightarrow> real \<Rightarrow> Package" where
  "new_package i pu dr now =
     \<lparr>pkg_id = i, pickup = pu, dropoff = dr, created_at = now,
      assigned_to = None, pkg_status = PENDING, priority = 1\<rparr>"

definition mark_assigned :: "Package \<Rightarrow> string \<Rightarrow> Package" where
  "mark_assigned self driver_id =
     self\<lparr>assigned_to := Some driver_id, pkg_status := ASSIGNED\<rparr>"

definition mark_in_transit :: "Package \<Rightarrow> Package" where
  "mark_in_transit self = self\<lparr>pkg_status := IN_TRANSIT\<rparr>"

definition mark_delivered :: "Package \<Rightarrow> Package" where
  "mark_delivered self = self\<lparr>pkg_status := DELIVERED\<rparr>"

text \<open>A call of one of the three transition methods, and a sequence of such calls.\<close>

datatype package_call = MarkAssigned string | MarkInTransit | MarkDelivered

fun call_package :: "Package \<Rightarrow> package_call \<Rightarrow> Package" where
  "call_package p (MarkAssigned d) = mark_assigned p d"
| "call_package p MarkInTransit = mark_in_transit p"
| "call_package p MarkDelivered = mark_delivered p"

definition call_all :: "Package \<Rightarrow> package_call list \<Rightarrow> Package" where
  "call_all p cs = foldl call_package p cs"

text \<open>The status a call writes, and the position of a status in the chain.\<close>

fun target_status :: "package_call \<Rightarrow> PackageStatus" where
  "target_status (MarkAssigned d) = ASSIGNED"
| "target_status MarkInTransit = IN_TRANSIT"
| "target_status MarkDelivered = DELIVERED"

fun stage :: "PackageStatus \<Rightarrow> nat" where
  "stage PENDING = 0"
| "stage ASSIGNED = 1"
| "stage IN_TRANSIT = 2"
| "stage DELIVERED = 3"

fun is_mark_assigned :: "package_call \<Rightarrow> bool" where
  "is_mark_assigned (MarkAssigned d) = True"
| "is_mark_assigned c = False"

subsection \<open>models/driver.py\<close>

datatype DriverStatus = IDLE | EN_ROUTE | DELIVERING

text \<open>
  A Python reference to a \<open>Package\<close> object is its position in the simulator's package
  list: the dispatcher hands the very objects of that list to the driver agent and
  mutates them afterwards.
\<close>

type_synonym package_ref = nat

record Driver =
  driver_id :: string
  location :: Location
  driver_status :: DriverStatus
  assigned_packages :: "package_ref list"
  route :: "Location list option"
  speed_mps :: "real option"

text \<open>
  The two methods of the \<open>Driver\<close> model. \<open>DriverAgent\<close> does not call them: it keeps
  its own route and cursor and writes the driver's status and location itself.
\<close>

definition Driver_assign_route ::
  "Driver \<Rightarrow> Location list \<Rightarrow> package_ref list option \<Rightarrow> Driver" where
  "Driver_assign_route self r packages =
     self\<lparr>route := Some r,
          assigned_packages :=
            (case packages of
               None \<Rightarrow> assigned_packages self
             | Some ps \<Rightarrow> if ps \<noteq> [] then ps else assigned_packages self),
          driver_status := EN_ROUTE\<rparr>"

definition Driver_clear_route :: "Driver \<Rightarrow> Driver" where
  "Driver_clear_route self =
     self\<lparr>route := None, assigned_packages := [], driver_status := IDLE\<rparr>"

subsection \<open>config.py\<close>

record Settings =
  DRIVER_SPEED_MPS :: real

definition default_settings :: Settings where
  "default_settings = \<lparr>DRIVER_SPEED_MPS = 10\<rparr>"

subsection \<open>agents/driver\_agent.py\<close>

record DriverAgent =
  driver :: Driver
  agent_cursor :: nat
  agent_route :: "Location list option"
  agent_packages :: "package_ref list"

definition new_driver_agent :: "Settings \<Rightarrow> string \<Rightarrow> Location \<Rightarrow> DriverAgent" where
  "new_driver_agent settings i start_location =
     \<lparr>driver = \<lparr>driver_id = i, location = start_location, driver_status = IDLE,
                assigned_packages = [], route = None,
                speed_mps = Some (DRIVER_SPEED_MPS settings)\<rparr>,
      agent_cursor = 0, agent_route = None, agent_packages = []\<rparr>"

text \<open>
  Python truth values: \<open>self.driver.speed_mps or settings.DRIVER_SPEED_MPS\<close> takes the
  setting when the driver's speed is \<open>None\<close> or \<open>0.0\<close>, and \<open>not self._route\<close> holds
  for \<open>None\<close> and for the empty list.
\<close>

definition speed_or :: "real option \<Rightarrow> real \<Rightarrow> real" where
  "speed_or s dflt = (case s of None \<Rightarrow> dflt | Some v \<Rightarrow> if v = 0 then dflt else v)"

text \<open>
  The guard \<open>not self._route or self._cursor >= len(self._route)\<close> is the condition of
  the first \<open>if\<close>; in the other branch the route is a non-empty list and the cursor
  is inside it, so \<open>self._route[self._cursor]\<close> does not raise. The call of
  \<open>haversine_distance_m\<close> comes before any assignment, so a tick that raises there
  leaves the agent as it was. The division \<open>step / dist\<close> is reached with \<open>dist \<ge> 1\<close>
  only. The local \<open>dist\<close> is written \<open>dist_m\<close>, the name \<open>dist\<close> being taken in HOL.
\<close>

definition tick :: "rounding \<Rightarrow> Settings \<Rightarrow> real \<Rightarrow> DriverAgent \<Rightarrow> exception + DriverAgent" where
  "tick rnd settings dt_seconds self =
     (if (case agent_route self of
            None \<Rightarrow> True
          | Some r \<Rightarrow> r = [] \<or> agent_cursor self \<ge> length r) then
        Inr (if driver_status (driver self) \<noteq> IDLE
             then self\<lparr>driver := (driver self)\<lparr>driver_status := IDLE\<rparr>\<rparr>
             else self)
      else
        let target = the (agent_route self) ! agent_cursor self
        in case haversine_distance_m rnd (location (driver self)) target of
             Inl e \<Rightarrow> Inl e
           | Inr dist_m \<Rightarrow>
               let step = speed_or (speed_mps (driver self)) (DRIVER_SPEED_MPS settings)
                            * dt_seconds
               in if step \<ge> dist_m \<or> dist_m < 1 then
                    Inr (self\<lparr>driver := (driver self)\<lparr>location := target\<rparr>,
                              agent_cursor := agent_cursor self + 1\<rparr>)
                  else
                    let f = step / dist_m;
                        lat' = lat (location (driver self))
                                 + (lat target - lat (location (driver self))) * f;
                        lon' = lon (location (driver self))
                                 + (lon target - lon (location (driver self))) * f
                    in Inr (self\<lparr>driver := (driver self)
                                \<lparr>location := \<lparr>lat = lat', lon = lon', address = None\<rparr>\<rparr>\<rparr>))"

text \<open>
  The agent object after a call of \<open>tick\<close>, whether the call returned or raised: a
  call that raises has written nothing.
\<close>

definition tick_state :: "rounding \<Rightarrow> Settings \<Rightarrow> real \<Rightarrow> DriverAgent \<Rightarrow> DriverAgent" where
  "tick_state rnd settings dt_seconds self =
     (case tick rnd settings dt_seconds self of Inl e \<Rightarrow> self | Inr self' \<Rightarrow> self')"

definition assign_route :: "DriverAgent \<Rightarrow> Location list \<Rightarrow> package_ref list option \<Rightarrow> DriverAgent" where
  "assign_route self r packages =
     self\<lparr>agent_route := Some r,
          agent_cursor := 0,
          agent_packages := (case packages of None \<Rightarrow> [] | Some ps \<Rightarrow> ps),
          driver := (driver self)\<lparr>driver_status := EN_ROUTE\<rparr>\<rparr>"

definition clear_route :: "DriverAgent \<Rightarrow> DriverAgent" where
  "clear_route self =
     self\<lparr>agent_route := None,
          agent_cursor := 0,
          agent_packages := [],
          driver := (driver self)\<lparr>driver_status := IDLE\<rparr>\<rparr>"

text \<open>\<open>n\<close> calls of \<open>tick\<close> in a row; the first call that raises ends them.\<close>

fun ticks :: "rounding \<Rightarrow> Settings \<Rightarrow> real \<Rightarrow> nat \<Rightarrow> DriverAgent \<Rightarrow> exception + DriverAgent" where
  "ticks rnd settings dt_seconds 0 a = Inr a"
| "ticks rnd settings dt_seconds (Suc n) a =
     (case tick rnd settings dt_seconds a of
        Inl e \<Rightarrow> Inl e
      | Inr a' \<Rightarrow> ticks rnd settings dt_seconds n a')"

text \<open>
  The public operations of a driver agent as values, and a run of them by a caller
  that catches what a tick raises, as the simulator does.
\<close>

datatype agent_call =
  AssignRoute "Location list" "package_ref list option"
  | ClearRoute
  | Tick real

fun call_agent :: "rounding \<Rightarrow> Settings \<Rightarrow> DriverAgent \<Rightarrow> agent_call \<Rightarrow> DriverAgent" where
  "call_agent rnd settings a (AssignRoute r ps) = assign_route a r ps"
| "call_agent rnd settings a ClearRoute = clear_route a"
| "call_agent rnd settings a (Tick dt) = tick_state rnd settings dt a"

definition run_agent ::
  "rounding \<Rightarrow> Settings \<Rightarrow> DriverAgent \<Rightarrow> agent_call list \<Rightarrow> DriverAgent" where
  "run_agent rnd settings a cs = foldl (call_agent rnd settings) a cs"

fun nonempty_route :: "agent_call \<Rightarrow> bool" where
  "nonempty_route (AssignRoute r ps) = (r \<noteq> [])"
| "nonempty_route c = True"

text \<open>A waypoint remains: there is a route and the cursor is inside it.\<close>

definition has_waypoint :: "DriverAgent \<Rightarrow> bool" where
  "has_waypoint a = (case agent_route a of None \<Rightarrow> False | Some r \<Rightarrow> agent_cursor a < length r)"

text \<open>
  The travel budget \<open>step\<close> reaches every waypoint of \<open>ws\<close> in turn, starting at \<open>l\<close>:
  the distance of each leg is computed, and it is no longer than one step.
\<close>

fun budget_reaches :: "rounding \<Rightarrow> real \<Rightarrow> Location \<Rightarrow> Location list \<Rightarrow> bool" where
  "budget_reaches rnd step l [] = True"
| "budget_reaches rnd step l (w # ws) =
     (case haversine_distance_m rnd l w of
        Inl e \<Rightarrow> False
      | Inr dist_m \<Rightarrow> dist_m \<le> step \<and> budget_reaches rnd step w ws)"

subsection \<open>environment/simulator.py\<close>

record EnvironmentSimulator =
  current_time :: real
  drivers :: "DriverAgent list"
  packages :: "Package list"
  tick_seconds :: real

text \<open>
  \<open>_tick\<close> calls \<open>d.tick\<close> on whatever object sits in the driver list, inside
  \<open>try ... except Exception\<close>. The method is a parameter of the loop: it returns the
  driver's new state, or raises, leaving the driver in the state it had reached by then.
  What a tick body can raise is an instance of \<open>Exception\<close>; an interrupt or a
  cancellation of the task does not come from advancing a driver and is not modelled.
  The loop runs over \<open>list(self.drivers)\<close>, a copy, and the drivers are distinct
  objects, so the new driver list is the list of the new states.
\<close>

type_synonym 'd tick_method = "real \<Rightarrow> 'd \<Rightarrow> (exception \<times> 'd) + 'd"

fun simulator_tick_loop :: "'d tick_method \<Rightarrow> real \<Rightarrow> 'd list \<Rightarrow> 'd list" where
  "simulator_tick_loop tk dt [] = []"
| "simulator_tick_loop tk dt (d # ds) =
     (case tk dt d of
        Inr d' \<Rightarrow> d' # simulator_tick_loop tk dt ds
      | Inl (e, d') \<Rightarrow> d' # simulator_tick_loop tk dt ds)"

text \<open>The state a driver is left in by a call of its tick method.\<close>

definition state_after :: "(exception \<times> 'd) + 'd \<Rightarrow> 'd" where
  "state_after r = (case r of Inr d' \<Rightarrow> d' | Inl (e, d') \<Rightarrow> d')"

text \<open>The tick method of a \<open>DriverAgent\<close>: when it raises, the agent is unchanged.\<close>

definition agent_tick :: "rounding \<Rightarrow> Settings \<Rightarrow> DriverAgent tick_method" where
  "agent_tick rnd settings dt d =
     (case tick rnd settings dt d of Inl e \<Rightarrow> Inl (e, d) | Inr d' \<Rightarrow> Inr d')"

definition simulator_tick ::
  "rounding \<Rightarrow> Settings \<Rightarrow> EnvironmentSimulator \<Rightarrow> EnvironmentSimulator" where
  "simulator_tick rnd settings self =
     self\<lparr>drivers :=
            simulator_tick_loop (agent_tick rnd settings) (tick_seconds self) (drivers self)\<rparr>"

subsection \<open>tools/routing\_engine.py\<close>

text \<open>
  The OSRM server is outside the program. \<open>route_call\<close> and \<open>table_call\<close> stand for the
  body of the two \<open>try\<close> blocks: \<open>None\<close> when it raises (no connection, an error status, a
  malformed body), otherwise what was read from the JSON answer, where a missing key
  reads as \<open>None\<close>.
\<close>

record RoutingEngine =
  route_call :: "Location \<Rightarrow> Location \<Rightarrow> (real option \<times> real option) option"
  table_call :: "Location list \<Rightarrow> real list list option option"

record route_info =
  duration_s :: "real option"
  distance_m :: "real option"

text \<open>
  The fallback of \<open>get_route\<close> runs inside the \<open>except\<close> handler, so what its call of
  \<open>haversine_distance_m\<close> raises leaves \<open>get_route\<close>.
\<close>

definition get_route ::
  "rounding \<Rightarrow> RoutingEngine \<Rightarrow> Location \<Rightarrow> Location \<Rightarrow> exception + route_info" where
  "get_route rnd self origin destination =
     (case route_call self origin destination of
        Some (dur, dis) \<Rightarrow> Inr \<lparr>duration_s = dur, distance_m = dis\<rparr>
      | None \<Rightarrow>
          (case haversine_distance_m rnd origin destination of
             Inl e \<Rightarrow> Inl e
           | Inr distance \<Rightarrow>
               let duration = (if distance > 0 then distance / (1111 / 100) else 0)
               in Inr \<lparr>duration_s = Some duration, distance_m = Some distance\<rparr>))"

text \<open>
  The fallback of \<open>get_duration_matrix\<close>, after the \<open>try\<close> statement: the zero matrix,
  then the two nested loops, \<open>fill_row\<close> over \<open>j\<close> inside \<open>fill_rows\<close> over \<open>i\<close>. Nothing
  catches what \<open>haversine_distance_m\<close> raises there.
\<close>

fun fill_row ::
  "rounding \<Rightarrow> Location list \<Rightarrow> nat \<Rightarrow> nat list \<Rightarrow> real list list
     \<Rightarrow> exception + real list list" where
  "fill_row rnd points i [] mat = Inr mat"
| "fill_row rnd points i (j # js) mat =
     (if i = j then fill_row rnd points i js (mat[i := (mat ! i)[j := 0]])
      else case haversine_distance_m rnd (points ! i) (points ! j) of
             Inl e \<Rightarrow> Inl e
           | Inr d \<Rightarrow> fill_row rnd points i js (mat[i := (mat ! i)[j := d / (1111 / 100)]]))"

fun fill_rows ::
  "rounding \<Rightarrow> Location list \<Rightarrow> nat \<Rightarrow> nat list \<Rightarrow> real list list
     \<Rightarrow> exception + real list list" where
  "fill_rows rnd points n [] mat = Inr mat"
| "fill_rows rnd points n (i # is) mat =
     (case fill_row rnd points i [0..<n] mat of
        Inl e \<Rightarrow> Inl e
      | Inr mat' \<Rightarrow> fill_rows rnd points n is mat')"

definition fallback_matrix :: "rounding \<Rightarrow> Location list \<Rightarrow> exception + real list list" where
  "fallback_matrix rnd points =
     (let n = length points;
          mat = replicate n (replicate n 0)
      in fill_rows rnd points n [0..<n] mat)"

definition get_duration_matrix ::
  "rounding \<Rightarrow> RoutingEngine \<Rightarrow> Location list \<Rightarrow> exception + real list list" where
  "get_duration_matrix rnd self points =
     (if length points < 2 then Inr [[0]]
      else case table_call self points of
             Some (Some durations) \<Rightarrow>
               if durations \<noteq> [] then Inr durations else fallback_matrix rnd points
           | _ \<Rightarrow> fallback_matrix rnd points)"

subsection \<open>agents/dispatcher.py\<close>

text \<open>
  \<open>list.sort(key=...)\<close> calls the key function on every element first, in list order;
  the first call that raises ends the sort. \<open>keys_of\<close> pairs each element with its key.
  The sort itself is stable, as \<^const>\<open>sort_key\<close> is.
\<close>

fun keys_of :: "('p \<Rightarrow> exception + real) \<Rightarrow> 'p list \<Rightarrow> exception + (real \<times> 'p) list" where
  "keys_of key [] = Inr []"
| "keys_of key (p # ps) =
     (case key p of
        Inl e \<Rightarrow> Inl e
      | Inr k \<Rightarrow>
          (case keys_of key ps of
             Inl e \<Rightarrow> Inl e
           | Inr ks \<Rightarrow> Inr ((k, p) # ks)))"

text \<open>
  The loop of \<open>_tick\<close> over \<open>self.simulator.drivers\<close>. \<open>pool\<close> is the local list
  \<open>packages\<close> of pending package objects, \<open>pkgs\<close> the simulator's package list that
  holds the objects themselves. An exception from the sort key or from one of the two
  \<open>get_route\<close> calls leaves the loop at once, before \<open>assign_route\<close> and
  \<open>mark_assigned\<close> for that driver: the result is then the exception with the drivers
  and packages as they are at that moment.
\<close>

fun assign_loop ::
  "rounding \<Rightarrow> RoutingEngine \<Rightarrow> DriverAgent list \<Rightarrow> package_ref list \<Rightarrow> Package list
     \<Rightarrow> (exception \<times> DriverAgent list \<times> Package list) + (DriverAgent list \<times> Package list)" where
  "assign_loop rnd routing [] pool pkgs = Inr ([], pkgs)"
| "assign_loop rnd routing (d_agent # rest) pool pkgs =
     (if driver_status (driver d_agent) \<noteq> IDLE then
        (case assign_loop rnd routing rest pool pkgs of
           Inl (e, rest', pkgs') \<Rightarrow> Inl (e, d_agent # rest', pkgs')
         | Inr (rest', pkgs') \<Rightarrow> Inr (d_agent # rest', pkgs'))
      else if pool = [] then Inr (d_agent # rest, pkgs)
      else
        let driver_loc = location (driver d_agent)
        in case keys_of (\<lambda>p. haversine_distance_m rnd driver_loc (pickup (pkgs ! p))) pool of
             Inl e \<Rightarrow> Inl (e, d_agent # rest, pkgs)
           | Inr keyed \<Rightarrow>
               let sorted = map snd (sort_key fst keyed);
                   pkg = hd sorted;
                   pool' = tl sorted
               in case get_route rnd routing driver_loc (pickup (pkgs ! pkg)) of
                    Inl e \<Rightarrow> Inl (e, d_agent # rest, pkgs)
                  | Inr r1 \<Rightarrow>
                      (case get_route rnd routing (pickup (pkgs ! pkg)) (dropoff (pkgs ! pkg)) of
                         Inl e \<Rightarrow> Inl (e, d_agent # rest, pkgs)
                       | Inr r2 \<Rightarrow>
                           let route_points =
                                 [driver_loc, pickup (pkgs ! pkg), dropoff (pkgs ! pkg)];
                               d_agent' = assign_route d_agent route_points (Some [pkg]);
                               pkgs' = pkgs[pkg := mark_assigned (pkgs ! pkg)
                                                     (driver_id (driver d_agent'))]
                           in case assign_loop rnd routing rest pool' pkgs' of
                                Inl (e, rest', pkgs'') \<Rightarrow> Inl (e, d_agent' # rest', pkgs'')
                              | Inr (rest', pkgs'') \<Rightarrow> Inr (d_agent' # rest', pkgs'')))"

text \<open>
  \<open>_tick\<close> itself: it returns, or raises with the simulator in the state reached; the
  caller \<open>run_loop\<close> logs the exception and goes on.
\<close>

definition dispatcher_tick ::
  "rounding \<Rightarrow> RoutingEngine \<Rightarrow> EnvironmentSimulator
     \<Rightarrow> (exception \<times> EnvironmentSimulator) + EnvironmentSimulator" where
  "dispatcher_tick rnd routing simulator =
     (let idle = filter (\<lambda>d. driver_status d = IDLE) (map driver (drivers simulator));
          pending = filter (\<lambda>p. pkg_status (packages simulator ! p) = PENDING)
                      [0..<length (packages simulator)]
      in if idle = [] \<or> pending = [] then Inr simulator
         else case assign_loop rnd routing (drivers simulator) pending (packages simulator) of
                Inl (e, ds, ps) \<Rightarrow> Inl (e, simulator\<lparr>drivers := ds, packages := ps\<rparr>)
              | Inr (ds, ps) \<Rightarrow> Inr (simulator\<lparr>drivers := ds, packages := ps\<rparr>))"

section \<open>Properties as predicates, and sample data\<close>

text \<open>
  One step of the chain PENDING, ASSIGNED, IN\_TRANSIT, DELIVERED: the status stays or
  moves to the next stage. \<open>follows_chain\<close> checks every status change of a run of
  calls on the package itself; \<open>in_chain_order\<close> looks at the calls alone.
\<close>

definition chain_step :: "PackageStatus \<Rightarrow> PackageStatus \<Rightarrow> bool" where
  "chain_step s s' = (s' = s \<or> stage s' = Suc (stage s))"

fun follows_chain :: "Package \<Rightarrow> package_call list \<Rightarrow> bool" where
  "follows_chain p [] = True"
| "follows_chain p (c # cs) =
     (chain_step (pkg_status p) (pkg_status (call_package p c))
      \<and> follows_chain (call_package p c) cs)"

fun in_chain_order :: "PackageStatus \<Rightarrow> package_call list \<Rightarrow> bool" where
  "in_chain_order s [] = True"
| "in_chain_order s (c # cs) =
     (chain_step s (target_status c) \<and> in_chain_order (target_status c) cs)"

definition is_assigned_status :: "PackageStatus \<Rightarrow> bool" where
  "is_assigned_status s = (s = ASSIGNED \<or> s = IN_TRANSIT \<or> s = DELIVERED)"

text \<open>Two points on the equator, half the globe apart, and two packages between them.\<close>

definition equator_0 :: Location where
  "equator_0 = \<lparr>lat = 0, lon = 0, address = None\<rparr>"

definition equator_180 :: Location where
  "equator_180 = \<lparr>lat = 0, lon = 180, address = None\<rparr>"

definition pkg_near :: Package where
  "pkg_near = new_package ''pkg_1'' equator_0 equator_180 0"

definition pkg_far :: Package where
  "pkg_far = new_package ''pkg_2'' equator_180 equator_0 0"

text \<open>
  The driver invariant in the specification's words: idle exactly when the route is
  empty or absent, en route exactly when a waypoint remains.
\<close>

definition spec_invariant :: "DriverAgent \<Rightarrow> bool" where
  "spec_invariant a =
     ((driver_status (driver a) = IDLE
         \<longleftrightarrow> (case agent_route a of None \<Rightarrow> True | Some r \<Rightarrow> r = []))
      \<and> (driver_status (driver a) = EN_ROUTE \<longleftrightarrow> has_waypoint a))"

text \<open>
  What the agent's operations keep: the status is idle or en route; a remaining waypoint
  means en route; without a route the agent is idle with cursor 0; a stored route is
  non-empty and the cursor is not beyond its end.
\<close>

definition agent_invariant :: "DriverAgent \<Rightarrow> bool" where
  "agent_invariant a =
     ((driver_status (driver a) = IDLE \<or> driver_status (driver a) = EN_ROUTE)
      \<and> (has_waypoint a \<longrightarrow> driver_status (driver a) = EN_ROUTE)
      \<and> (case agent_route a of
            None \<Rightarrow> driver_status (driver a) = IDLE \<and> agent_cursor a = 0
          | Some r \<Rightarrow> r \<noteq> [] \<and> agent_cursor a \<le> length r))"

text \<open>
  One tick of motion in the specification's words, for an agent \<open>a\<close> with a current
  waypoint, the computed distance \<open>dist_m\<close> to it, a travel budget \<open>step\<close> and the agent
  \<open>a'\<close> after the tick.
\<close>

definition motion_step :: "real \<Rightarrow> real \<Rightarrow> DriverAgent \<Rightarrow> DriverAgent \<Rightarrow> bool" where
  "motion_step dist_m step a a' =
     (let waypoint = the (agent_route a) ! agent_cursor a
      in if step \<ge> dist_m \<or> dist_m < 1 then
           location (driver a') = waypoint \<and> agent_cursor a' = agent_cursor a + 1
         else
           let f = step / dist_m
           in lat (location (driver a'))
                = lat (location (driver a)) + (lat waypoint - lat (location (driver a))) * f
              \<and> lon (location (driver a'))
                = lon (location (driver a)) + (lon waypoint - lon (location (driver a))) * f
              \<and> agent_cursor a' = agent_cursor a)"

text \<open>
  An agent that has gone through the route \<open>ws\<close>: it stands at the last waypoint and the
  cursor is at the end. \<open>idle\<close> is the same agent with the status set to IDLE.
\<close>

definition arrived :: "DriverAgent \<Rightarrow> Location list \<Rightarrow> DriverAgent" where
  "arrived a ws = a\<lparr>driver := (driver a)\<lparr>location := last ws\<rparr>, agent_cursor := length ws\<rparr>"

definition idle :: "DriverAgent \<Rightarrow> DriverAgent" where
  "idle a = a\<lparr>driver := (driver a)\<lparr>driver_status := IDLE\<rparr>\<rparr>"

text \<open>Sample agents: a new one at the first point, and one that is standing still.\<close>

definition agent_1 :: DriverAgent where
  "agent_1 = new_driver_agent default_settings ''d1'' equator_0"

definition agent_stopped :: DriverAgent where
  "agent_stopped =
     assign_route (agent_1\<lparr>driver := (driver agent_1)\<lparr>speed_mps := Some 0\<rparr>\<rparr>)
       [equator_180] None"

text \<open>A tick method that fails on the driver called \<open>bad\<close> and is the agent's own otherwise.\<close>

definition faulty_tick :: "DriverAgent tick_method" where
  "faulty_tick dt d =
     (if driver_id (driver d) = ''bad'' then Inl (Exception ''simulated fault'', d)
      else agent_tick exact default_settings dt d)"

definition agent_bad :: DriverAgent where
  "agent_bad = new_driver_agent default_settings ''bad'' equator_0"

definition agent_2 :: DriverAgent where
  "agent_2 = assign_route (new_driver_agent default_settings ''d2'' equator_0) [equator_0] None"

text \<open>
  A routing engine whose server cannot be reached, and a simulator to dispatch in: one
  driver under way and one idle, one package delivered and two pending.
\<close>

definition unreachable :: RoutingEngine where
  "unreachable = \<lparr>route_call = (\<lambda>origin destination. None), table_call = (\<lambda>points. None)\<rparr>"

definition pkg_done :: Package where
  "pkg_done =
     mark_delivered (mark_in_transit (mark_assigned
       (new_package ''pkg_0'' equator_180 equator_0 0) ''d2''))"

definition sample_simulator :: EnvironmentSimulator where
  "sample_simulator =
     \<lparr>current_time = 0, drivers = [agent_2, agent_1],
      packages = [pkg_far, pkg_done, pkg_near], tick_seconds = 1\<rparr>"

text \<open>
  Two antipodal points off the equator. In IEEE double arithmetic line 16 gives
  \<open>a = 1.0000000000000002\<close> for them, in either order, one unit in the last place above
  the exact value 1. \<open>double_rounding\<close> has that error for this pair and none elsewhere.
\<close>

definition north_8 :: Location where
  "north_8 = \<lparr>lat = 8, lon = 0, address = None\<rparr>"

definition south_8 :: Location where
  "south_8 = \<lparr>lat = - 8, lon = 180, address = None\<rparr>"

definition double_rounding :: rounding where
  "double_rounding self other =
     (if (lat self = 8 \<and> lon self = 0 \<and> lat other = - 8 \<and> lon other = 180)
         \<or> (lat self = - 8 \<and> lon self = 180 \<and> lat other = 8 \<and> lon other = 0)
      then 1 / 2 ^ 52 else 0)"

text \<open>
  A world for the dispatcher on that machine: one idle driver at the northern point, a
  package to be picked up where the driver stands and dropped at the antipode, and a
  second package farther away.
\<close>

definition agent_8 :: DriverAgent where
  "agent_8 = new_driver_agent default_settings ''d1'' north_8"

definition pkg_here :: Package where
  "pkg_here = new_package ''pkg_1'' north_8 south_8 0"

definition pkg_away :: Package where
  "pkg_away = new_package ''pkg_2'' equator_180 equator_0 0"

definition antipodal_simulator :: EnvironmentSimulator where
  "antipodal_simulator =
     \<lparr>current_time = 0, drivers = [agent_8], packages = [pkg_away, pkg_here],
      tick_seconds = 1\<rparr>"

section \<open>Great-circle distance\<close>

lemma cos_mult_bounds:
  fixes x y :: real
  shows "cos x * cos y \<le> (cos ((y - x) / 2))\<^sup>2" and "- ((sin ((y - x) / 2))\<^sup>2) \<le> cos x * cos y"
proof -
  have e: "cos x * cos y = (cos (y - x) + cos (y + x)) / 2"
    by (simp add: cos_add cos_diff)
  define h where "h = (y - x) / 2"
  have yx: "y - x = 2 * h" by (simp add: h_def)
  have c2: "cos (y - x) = 2 * (cos ((y - x) / 2))\<^sup>2 - 1"
    unfolding yx by (simp add: cos_double_cos)
  have s2: "cos (y - x) = 1 - 2 * (sin ((y - x) / 2))\<^sup>2"
    unfolding yx by (simp add: cos_double_sin)
  have "cos (y + x) \<le> 1" by simp
  moreover have "a = (b + c) / 2 \<Longrightarrow> b = 2 * d - 1 \<Longrightarrow> c \<le> 1 \<Longrightarrow> a \<le> d" for a b c d :: real
    by simp
  ultimately show "cos x * cos y \<le> (cos ((y - x) / 2))\<^sup>2" using e c2 by blast
  have "- 1 \<le> cos (y + x)" by simp
  moreover have "a = (b + c) / 2 \<Longrightarrow> b = 1 - 2 * d \<Longrightarrow> - 1 \<le> c \<Longrightarrow> - d \<le> a" for a b c d :: real
    by simp
  ultimately show "- ((sin ((y - x) / 2))\<^sup>2) \<le> cos x * cos y" using e s2 by blast
qed

lemma haversine_a_range: "0 \<le> haversine_a p q \<and> haversine_a p q \<le> 1"
proof -
  define x where "x = radians (lat p)"
  define y where "y = radians (lat q)"
  define s where "s = (sin ((radians (lon q) - radians (lon p)) / 2))\<^sup>2"
  define u where "u = (sin ((y - x) / 2))\<^sup>2"
  have a: "haversine_a p q = u + cos x * cos y * s"
    by (simp add: haversine_a_def Let_def x_def y_def s_def u_def)
  have sq_le: "(sin t)\<^sup>2 \<le> 1" for t :: real
    using sin_cos_squared_add[of t] zero_le_power2[of "cos t"] by linarith
  have s01: "0 \<le> s" "s \<le> 1"
    using sq_le by (simp_all add: s_def)
  have u01: "0 \<le> u" by (simp add: u_def)
  have cu: "(cos ((y - x) / 2))\<^sup>2 = 1 - u"
    using sin_cos_squared_add[of "(y - x) / 2"] unfolding u_def by linarith
  have up: "cos x * cos y \<le> 1 - u" using cos_mult_bounds(1)[where x=x and y=y] cu by simp
  have lo: "- u \<le> cos x * cos y" using cos_mult_bounds(2)[where x=x and y=y] by (simp add: u_def)
  have "(- u) * s \<le> (cos x * cos y) * s" using lo s01(1) by (rule mult_right_mono)
  then have "- u * s \<le> cos x * cos y * s" by simp
  moreover have "u * s \<le> u" using u01 s01 by (simp add: mult_left_le)
  ultimately have "0 \<le> u + cos x * cos y * s" by linarith
  moreover have "u + cos x * cos y * s \<le> 1"
  proof (cases "0 \<le> cos x * cos y")
    case True
    have "(cos x * cos y) * s \<le> cos x * cos y" using mult_left_le[OF s01(2) True] by simp
    with up show ?thesis by linarith
  next
    case False
    then have "cos x * cos y \<le> 0" by simp
    then have "(cos x * cos y) * s \<le> 0" using s01(1) by (rule mult_nonpos_nonneg)
    moreover have "u \<le> 1" using cu by (metis diff_ge_0_iff_ge zero_le_power2)
    ultimately show ?thesis by linarith
  qed
  ultimately show ?thesis using a by simp
qed

lemma atan2_nonneg_range: "0 \<le> y \<Longrightarrow> 0 \<le> x \<Longrightarrow> 0 \<le> atan2 y x \<and> atan2 y x \<le> pi / 2"
  using arctan_ubound[of "y / x"] by (auto simp: atan2_def less_imp_le)

lemma haversine_value:
  assumes "rnd p q = 0"
  shows "haversine_distance_m rnd p q
           = Inr (6371000 * (2 * atan2 (sqrt (haversine_a p q)) (sqrt (1 - haversine_a p q))))"
  using haversine_a_range[of p q] assms by (simp add: haversine_distance_m_def Let_def)

lemma haversine_raises:
  assumes "1 < haversine_a p q + rnd p q"
  shows "haversine_distance_m rnd p q = Inl ValueError"
  using assms by (simp add: haversine_distance_m_def Let_def)

lemma haversine_returns_range:
  assumes "haversine_distance_m rnd p q = Inr d"
  shows "0 \<le> d \<and> d \<le> 6371000 * pi"
proof -
  let ?a = "haversine_a p q + rnd p q"
  from assms have r: "0 \<le> ?a" "?a \<le> 1"
    and d: "d = 6371000 * (2 * atan2 (sqrt ?a) (sqrt (1 - ?a)))"
    by (auto simp: haversine_distance_m_def Let_def split: if_splits)
  from r have "0 \<le> sqrt ?a" "0 \<le> sqrt (1 - ?a)" by simp_all
  from atan2_nonneg_range[OF this] show ?thesis by (simp add: d)
qed

lemma haversine_self: "rnd p p = 0 \<Longrightarrow> haversine_distance_m rnd p p = Inr 0"
  by (simp add: haversine_distance_m_def haversine_a_def atan2_def Let_def)

lemma haversine_a_sym: "haversine_a p q = haversine_a q p"
proof -
  have "sin ((x - y) / 2) ^ 2 = sin ((y - x) / 2) ^ 2" for x y :: real
  proof -
    have "(x - y) / 2 = - ((y - x) / 2)" by (simp add: field_simps)
    then show ?thesis by (metis sin_minus power2_minus)
  qed
  then show ?thesis by (simp add: haversine_a_def Let_def mult.commute)
qed

lemma haversine_sym:
  "rnd p q = rnd q p \<Longrightarrow> haversine_distance_m rnd p q = haversine_distance_m rnd q p"
  by (simp add: haversine_distance_m_def haversine_a_sym[of p q])

lemma haversine_a_equator: "haversine_a equator_0 equator_180 = 1"
  by (simp add: haversine_a_def Let_def radians_def equator_0_def equator_180_def)

lemma haversine_equator: "haversine_distance_m exact equator_0 equator_180 = Inr (6371000 * pi)"
  by (simp add: haversine_value exact_def haversine_a_equator atan2_def)

lemma haversine_equator_back:
  "haversine_distance_m exact equator_180 equator_0 = Inr (6371000 * pi)"
  using haversine_sym[of exact equator_180 equator_0] by (simp add: haversine_equator exact_def)

lemma haversine_a_antipodes: "haversine_a north_8 south_8 = 1"
proof -
  have "(- 8 * (pi / 180) - 8 * (pi / 180)) / 2 = - (8 * (pi / 180))" by simp
  then have "(sin ((- 8 * (pi / 180) - 8 * (pi / 180)) / 2))\<^sup>2 = (sin (8 * (pi / 180)))\<^sup>2"
    by (simp only: sin_minus power2_minus)
  moreover have "cos (- 8 * (pi / 180)) = cos (8 * (pi / 180))"
    by (metis cos_minus mult_minus_left)
  ultimately show ?thesis
    using sin_cos_squared_add[of "8 * (pi / 180)"]
    by (simp add: haversine_a_def Let_def radians_def north_8_def south_8_def power2_eq_square)
qed

lemma double_rounding_antipodes: "double_rounding north_8 south_8 = 1 / 2 ^ 52"
  by (simp add: double_rounding_def north_8_def south_8_def)

lemma haversine_antipodes_raises:
  "haversine_distance_m double_rounding north_8 south_8 = Inl ValueError"
  by (rule haversine_raises) (simp add: haversine_a_antipodes double_rounding_antipodes)

section \<open>Package state machine\<close>

lemma status_call_package: "pkg_status (call_package p c) = target_status c"
  by (cases c) (simp_all add: mark_assigned_def mark_in_transit_def mark_delivered_def)

lemma assigned_to_call_package:
  "assigned_to (call_package p c) =
     (case c of MarkAssigned d \<Rightarrow> Some d | _ \<Rightarrow> assigned_to p)"
  by (cases c) (simp_all add: mark_assigned_def mark_in_transit_def mark_delivered_def)

lemma call_all_snoc: "call_all p (cs @ [c]) = call_package (call_all p cs) c"
  by (simp add: call_all_def)

lemma status_call_all:
  "pkg_status (call_all p cs) = (if cs = [] then pkg_status p else target_status (last cs))"
  by (induction cs rule: rev_induct) (simp_all add: call_all_def status_call_package)

lemma assigned_to_call_all:
  "assigned_to (call_all p cs) \<noteq> None \<longleftrightarrow>
     assigned_to p \<noteq> None \<or> (\<exists>c \<in> set cs. is_mark_assigned c)"
proof (induction cs rule: rev_induct)
  case Nil
  show ?case by (simp add: call_all_def)
next
  case (snoc c cs)
  show ?case
    using snoc.IH
    by (auto simp: call_all_snoc assigned_to_call_package split: package_call.splits)
qed

lemma follows_chain_iff: "follows_chain p cs \<longleftrightarrow> in_chain_order (pkg_status p) cs"
  by (induction cs arbitrary: p) (simp_all add: status_call_package)

text \<open>
  Claim C3, as amended. \<open>mark_assigned\<close> checks nothing: from every status it stores the
  given driver id and sets the status to ASSIGNED, and no call raises. A second call
  with another driver id overwrites \<open>assigned_to\<close>: the last writer wins.
\<close>

theorem mark_assigned_overwrites:
  "assigned_to (mark_assigned p d) = Some d
   \<and> pkg_status (mark_assigned p d) = ASSIGNED
   \<and> assigned_to (mark_assigned (mark_assigned p d1) d2) = Some d2"
  by (simp add: mark_assigned_def)

text \<open>
  Claim C3 as stated fails: on a package already assigned to \<open>d1\<close> the second call
  returns a package (nothing is raised) whose \<open>assigned_to\<close> has changed to \<open>d2\<close>.
\<close>

theorem mark_assigned_twice_counterexample:
  "pkg_status (mark_assigned pkg_near ''d1'') \<noteq> PENDING
   \<and> assigned_to (mark_assigned pkg_near ''d1'') = Some ''d1''
   \<and> assigned_to (mark_assigned (mark_assigned pkg_near ''d1'') ''d2'')
       \<noteq> assigned_to (mark_assigned pkg_near ''d1'')"
  by (simp add: mark_assigned_def)

text \<open>
  Claim C5, as amended. Each call writes its own target status whatever the status
  before: ASSIGNED, IN\_TRANSIT, DELIVERED for \<open>mark_assigned\<close>, \<open>mark_in_transit\<close>,
  \<open>mark_delivered\<close>. A run of calls follows the chain exactly when the calls themselves
  come in chain order, as \<open>mark_assigned\<close>, \<open>mark_in_transit\<close>, \<open>mark_delivered\<close> on a
  new package do.
\<close>

theorem package_status_follows_calls:
  "pkg_status (call_package p c) = target_status c
   \<and> (follows_chain p cs \<longleftrightarrow> in_chain_order (pkg_status p) cs)
   \<and> follows_chain (new_package i pu dr now) [MarkAssigned d, MarkInTransit, MarkDelivered]"
  by (simp add: status_call_package follows_chain_iff chain_step_def new_package_def)

text \<open>
  Claim C5 as stated fails: \<open>mark_delivered\<close> on a new package jumps from PENDING to
  DELIVERED, and \<open>mark_assigned\<close> after it moves back to ASSIGNED.
\<close>

theorem package_monotonic_counterexample:
  "\<not> follows_chain pkg_near [MarkDelivered]
   \<and> pkg_status (call_all pkg_near [MarkDelivered]) = DELIVERED
   \<and> pkg_status (call_all pkg_near [MarkDelivered, MarkAssigned ''d1'']) = ASSIGNED"
  by (simp add: pkg_near_def new_package_def call_all_def mark_delivered_def
      mark_assigned_def chain_step_def)

text \<open>
  Claim C6, as amended. After any calls on a new package, \<open>assigned_to\<close> is set exactly
  when one of the calls was \<open>mark_assigned\<close>, and the status is one of ASSIGNED,
  IN\_TRANSIT, DELIVERED exactly when at least one call was made. So a set
  \<open>assigned_to\<close> implies such a status; the converse needs a \<open>mark_assigned\<close> among the
  calls.
\<close>

theorem assigned_to_characterised:
  "(assigned_to (call_all (new_package i pu dr now) cs) \<noteq> None
      \<longleftrightarrow> list_ex is_mark_assigned cs)
   \<and> (is_assigned_status (pkg_status (call_all (new_package i pu dr now) cs)) \<longleftrightarrow> cs \<noteq> [])
   \<and> (assigned_to (call_all (new_package i pu dr now) cs) \<noteq> None
      \<longrightarrow> is_assigned_status (pkg_status (call_all (new_package i pu dr now) cs)))"
proof -
  let ?q = "call_all (new_package i pu dr now) cs"
  have "assigned_to (new_package i pu dr now) = None"
    by (simp add: new_package_def)
  then have a: "assigned_to ?q \<noteq> None \<longleftrightarrow> list_ex is_mark_assigned cs"
    unfolding assigned_to_call_all list_ex_iff by simp
  have "is_assigned_status (target_status c)" for c
    by (cases c) (simp_all add: is_assigned_status_def)
  then have b: "is_assigned_status (pkg_status ?q) \<longleftrightarrow> cs \<noteq> []"
    by (simp add: status_call_all) (simp add: new_package_def is_assigned_status_def)
  have "list_ex is_mark_assigned cs \<Longrightarrow> cs \<noteq> []" by auto
  with a b show ?thesis by blast
qed

theorem assigned_to_characterised_witness:
  "assigned_to (call_all pkg_near [MarkAssigned ''d1'', MarkInTransit]) \<noteq> None
   \<and> is_assigned_status (pkg_status (call_all pkg_near [MarkAssigned ''d1'', MarkInTransit]))"
  using assigned_to_characterised
    [of "''pkg_1''" equator_0 equator_180 0 "[MarkAssigned ''d1'', MarkInTransit]"]
  by (simp add: pkg_near_def)

text \<open>
  Claim C6 as stated fails: \<open>mark_in_transit\<close> on a new package gives the status
  IN\_TRANSIT while \<open>assigned_to\<close> is still unset.
\<close>

theorem assigned_to_iff_counterexample:
  "\<not> (assigned_to (call_all pkg_near [MarkInTransit]) \<noteq> None
        \<longleftrightarrow> is_assigned_status (pkg_status (call_all pkg_near [MarkInTransit])))"
  by (simp add: pkg_near_def new_package_def call_all_def mark_in_transit_def
      is_assigned_status_def)

section \<open>Driver agent\<close>

lemma tick_exhausted:
  assumes "\<not> has_waypoint a"
  shows "tick rnd settings dt a = Inr (if driver_status (driver a) \<noteq> IDLE then idle a else a)"
  using assms by (auto simp: tick_def has_waypoint_def idle_def split: option.splits)

lemma tick_state_exhausted:
  assumes "\<not> has_waypoint a"
  shows "tick rnd settings dt a = Inr (tick_state rnd settings dt a)"
    and "driver_status (driver (tick_state rnd settings dt a)) = IDLE"
    and "location (driver (tick_state rnd settings dt a)) = location (driver a)"
  by (simp_all add: tick_state_def tick_exhausted[OF assms] idle_def)

text \<open>
  Claim C10. \<open>assign_route\<close> does not look at its waypoint list: with the empty list
  the agent is EN\_ROUTE with an empty route and cursor 0, and the next tick returns,
  sets the status back to IDLE and leaves the location alone.
\<close>

theorem assign_empty_route_then_tick:
  "driver_status (driver (assign_route a [] ps)) = EN_ROUTE
   \<and> agent_route (assign_route a [] ps) = Some []
   \<and> agent_cursor (assign_route a [] ps) = 0
   \<and> tick rnd settings dt (assign_route a [] ps)
       = Inr (tick_state rnd settings dt (assign_route a [] ps))
   \<and> driver_status (driver (tick_state rnd settings dt (assign_route a [] ps))) = IDLE
   \<and> location (driver (tick_state rnd settings dt (assign_route a [] ps))) = location (driver a)"
proof -
  have n: "\<not> has_waypoint (assign_route a [] ps)"
    by (simp add: has_waypoint_def assign_route_def)
  show ?thesis
    using tick_state_exhausted[OF n, of rnd settings dt] by (simp add: assign_route_def)
qed

lemma budget_reaches_leg:
  "budget_reaches rnd step l ws \<Longrightarrow> i < length ws \<Longrightarrow>
     \<exists>d. haversine_distance_m rnd (if i = 0 then l else ws ! (i - 1)) (ws ! i) = Inr d \<and> d \<le> step"
proof (induction ws arbitrary: l i)
  case Nil
  then show ?case by simp
next
  case (Cons w ws)
  show ?case
  proof (cases i)
    case 0
    with Cons.prems show ?thesis by (auto split: sum.splits)
  next
    case (Suc j)
    with Cons.prems have "j < length ws" "budget_reaches rnd step w ws"
      by (auto split: sum.splits)
    from Cons.IH[OF this(2) this(1)] Suc show ?thesis by (cases j) simp_all
  qed
qed

lemma tick_arrive:
  assumes "agent_route a = Some r" "agent_cursor a < length r"
    and "haversine_distance_m rnd (location (driver a)) (r ! agent_cursor a) = Inr d"
    and "d \<le> speed_or (speed_mps (driver a)) (DRIVER_SPEED_MPS settings) * dt"
  shows "tick rnd settings dt a =
           Inr (a\<lparr>driver := (driver a)\<lparr>location := r ! agent_cursor a\<rparr>,
                  agent_cursor := agent_cursor a + 1\<rparr>)"
  using assms by (auto simp: tick_def Let_def)

lemma ticks_snoc:
  "ticks rnd settings dt (Suc n) a =
     (case ticks rnd settings dt n a of Inl e \<Rightarrow> Inl e | Inr b \<Rightarrow> tick rnd settings dt b)"
proof (induction n arbitrary: a)
  case 0
  show ?case by (simp split: sum.splits)
next
  case (Suc n)
  have "ticks rnd settings dt (Suc (Suc n)) a =
          (case tick rnd settings dt a of
             Inl e \<Rightarrow> Inl e
           | Inr a' \<Rightarrow> ticks rnd settings dt (Suc n) a')"
    by simp
  also have "\<dots> =
          (case tick rnd settings dt a of
             Inl e \<Rightarrow> Inl e
           | Inr a' \<Rightarrow>
               (case ticks rnd settings dt n a' of
                  Inl e \<Rightarrow> Inl e
                | Inr b \<Rightarrow> tick rnd settings dt b))"
    by (simp only: Suc.IH)
  also have "\<dots> =
          (case ticks rnd settings dt (Suc n) a of
             Inl e \<Rightarrow> Inl e
           | Inr b \<Rightarrow> tick rnd settings dt b)"
    by (cases "tick rnd settings dt a") simp_all
  finally show ?case .
qed

lemma ticks_arrive:
  assumes r: "agent_route a = Some r" and c: "agent_cursor a = 0"
    and b: "budget_reaches rnd (speed_or (speed_mps (driver a)) (DRIVER_SPEED_MPS settings) * dt)
              (location (driver a)) r"
  shows "n \<le> length r \<Longrightarrow>
         ticks rnd settings dt n a =
           Inr (a\<lparr>driver := (driver a)
                     \<lparr>location := (if n = 0 then location (driver a) else r ! (n - 1))\<rparr>,
                  agent_cursor := n\<rparr>)"
proof (induction n)
  case 0
  then show ?case using c by simp
next
  case (Suc n)
  let ?a = "a\<lparr>driver := (driver a)
                     \<lparr>location := (if n = 0 then location (driver a) else r ! (n - 1))\<rparr>,
                  agent_cursor := n\<rparr>"
  from Suc have eq: "ticks rnd settings dt n a = Inr ?a" and n: "n < length r" by simp_all
  from budget_reaches_leg[OF b n] obtain d
    where leg: "haversine_distance_m rnd (if n = 0 then location (driver a) else r ! (n - 1))
                  (r ! n) = Inr d"
      and le: "d \<le> speed_or (speed_mps (driver a)) (DRIVER_SPEED_MPS settings) * dt"
    by blast
  have "tick rnd settings dt ?a = Inr (?a\<lparr>driver := (driver ?a)\<lparr>location := r ! agent_cursor ?a\<rparr>,
             agent_cursor := agent_cursor ?a + 1\<rparr>)"
    by (rule tick_arrive[where d = d]) (use r n leg le in simp_all)
  then show ?case unfolding ticks_snoc eq by simp
qed

lemma ticks_after_assign:
  assumes "ws \<noteq> []"
    and "budget_reaches rnd (speed_or (speed_mps (driver a)) (DRIVER_SPEED_MPS settings) * dt)
           (location (driver a)) ws"
  shows "ticks rnd settings dt (length ws) (assign_route a ws ps)
           = Inr (arrived (assign_route a ws ps) ws)"
    and "ticks rnd settings dt (Suc (length ws)) (assign_route a ws ps)
           = Inr (idle (arrived (assign_route a ws ps) ws))"
proof -
  let ?a = "assign_route a ws ps"
  have "budget_reaches rnd (speed_or (speed_mps (driver ?a)) (DRIVER_SPEED_MPS settings) * dt)
              (location (driver ?a)) ws"
    using assms(2) by (simp add: assign_route_def)
  from ticks_arrive[OF _ _ this, of "length ws"] assms(1)
  have "ticks rnd settings dt (length ws) ?a
          = Inr (?a\<lparr>driver := (driver ?a)\<lparr>location := ws ! (length ws - 1)\<rparr>,
                   agent_cursor := length ws\<rparr>)"
    by (simp add: assign_route_def)
  then show eq: "ticks rnd settings dt (length ws) ?a = Inr (arrived ?a ws)"
    using assms(1) by (simp add: arrived_def last_conv_nth)
  have nw: "\<not> has_waypoint (arrived ?a ws)"
    by (simp add: has_waypoint_def arrived_def assign_route_def)
  have st: "driver_status (driver (arrived ?a ws)) = EN_ROUTE"
    by (simp add: arrived_def assign_route_def)
  show "ticks rnd settings dt (Suc (length ws)) ?a = Inr (idle (arrived ?a ws))"
    unfolding ticks_snoc eq using tick_exhausted[OF nw, of rnd settings dt] st by simp
qed

lemma arrived_fields:
  "location (driver (arrived (assign_route a ws ps) ws)) = last ws"
  "agent_cursor (arrived (assign_route a ws ps) ws) = length ws"
  "driver_status (driver (arrived (assign_route a ws ps) ws)) = EN_ROUTE"
  "location (driver (idle (arrived (assign_route a ws ps) ws))) = last ws"
  "driver_status (driver (idle (arrived (assign_route a ws ps) ws))) = IDLE"
  by (simp_all add: arrived_def idle_def assign_route_def)

text \<open>
  Claim C2, as amended. A driver agent is given a route of \<open>L \<ge> 1\<close> waypoints, and at each
  waypoint in turn the distance from the previous position is computed and is within
  the travel budget of one tick. Then \<open>L\<close> ticks return, and after exactly \<open>L\<close> ticks the
  location is the last waypoint and the cursor is \<open>L\<close>, but the status is still EN\_ROUTE;
  the tick after that, number \<open>L + 1\<close>, sets the status to IDLE and leaves the location
  at the last waypoint.
\<close>

theorem route_completion:
  assumes "ws \<noteq> []"
    and "budget_reaches rnd (speed_or (speed_mps (driver a)) (DRIVER_SPEED_MPS settings) * dt)
           (location (driver a)) ws"
  shows "ticks rnd settings dt (length ws) (assign_route a ws ps)
           = Inr (arrived (assign_route a ws ps) ws)
       \<and> location (driver (arrived (assign_route a ws ps) ws)) = last ws
       \<and> agent_cursor (arrived (assign_route a ws ps) ws) = length ws
       \<and> driver_status (driver (arrived (assign_route a ws ps) ws)) = EN_ROUTE
       \<and> ticks rnd settings dt (Suc (length ws)) (assign_route a ws ps)
           = Inr (idle (arrived (assign_route a ws ps) ws))
       \<and> location (driver (idle (arrived (assign_route a ws ps) ws))) = last ws
       \<and> driver_status (driver (idle (arrived (assign_route a ws ps) ws))) = IDLE"
  using ticks_after_assign[OF assms] by (simp add: arrived_fields)

lemma agent_1_fields:
  "speed_mps (driver agent_1) = Some 10" "location (driver agent_1) = equator_0"
  "driver_status (driver agent_1) = IDLE" "agent_route agent_1 = None"
  "agent_cursor agent_1 = 0" "driver_id (driver agent_1) = ''d1''"
  by (simp_all add: agent_1_def new_driver_agent_def default_settings_def)

lemma sample_budget:
  "budget_reaches exact
     (speed_or (speed_mps (driver agent_1)) (DRIVER_SPEED_MPS default_settings) * 3000000)
     (location (driver agent_1)) [equator_180, equator_0]"
  using pi_less_4
  by (simp add: agent_1_fields speed_or_def haversine_equator haversine_equator_back)

theorem route_completion_witness:
  "[equator_180, equator_0] \<noteq> []
   \<and> budget_reaches exact
       (speed_or (speed_mps (driver agent_1)) (DRIVER_SPEED_MPS default_settings) * 3000000)
       (location (driver agent_1)) [equator_180, equator_0]
   \<and> ticks exact default_settings 3000000 2 (assign_route agent_1 [equator_180, equator_0] None)
       = Inr (arrived (assign_route agent_1 [equator_180, equator_0] None)
                [equator_180, equator_0])
   \<and> location (driver (arrived (assign_route agent_1 [equator_180, equator_0] None)
        [equator_180, equator_0])) = equator_0
   \<and> ticks exact default_settings 3000000 3 (assign_route agent_1 [equator_180, equator_0] None)
       = Inr (idle (arrived (assign_route agent_1 [equator_180, equator_0] None)
                [equator_180, equator_0]))
   \<and> driver_status (driver (idle (arrived (assign_route agent_1 [equator_180, equator_0] None)
        [equator_180, equator_0]))) = IDLE"
  using route_completion[OF _ sample_budget, of None] sample_budget
  by (simp add: eval_nat_numeral)

text \<open>
  Claim C2 as stated fails: with the same route and budget the two ticks return, one
  for each waypoint, and the agent is not idle after them.
\<close>

theorem route_completion_counterexample:
  "budget_reaches exact
       (speed_or (speed_mps (driver agent_1)) (DRIVER_SPEED_MPS default_settings) * 3000000)
       (location (driver agent_1)) [equator_180, equator_0]
   \<and> ticks exact default_settings 3000000 2 (assign_route agent_1 [equator_180, equator_0] None)
       = Inr (arrived (assign_route agent_1 [equator_180, equator_0] None)
                [equator_180, equator_0])
   \<and> driver_status (driver (arrived (assign_route agent_1 [equator_180, equator_0] None)
        [equator_180, equator_0])) \<noteq> IDLE"
  using ticks_after_assign(1)[OF _ sample_budget, of None] sample_budget
  by (simp add: eval_nat_numeral arrived_fields)

lemma tick_motion:
  assumes "has_waypoint a"
    and "haversine_distance_m rnd (location (driver a)) (the (agent_route a) ! agent_cursor a)
           = Inr d"
  shows "tick rnd settings dt a = Inr (tick_state rnd settings dt a)"
    and "motion_step d (speed_or (speed_mps (driver a)) (DRIVER_SPEED_MPS settings) * dt) a
           (tick_state rnd settings dt a)"
  using assms
  by (auto simp: has_waypoint_def tick_state_def tick_def motion_step_def Let_def
      split: option.splits)

text \<open>
  Claim C7, as amended. For an agent with a current waypoint whose distance \<open>dist\<close> from
  the driver's location is computed, one tick returns and moves as the specification
  says, with the travel budget \<open>step = s * dt\<close> where \<open>s\<close> is the driver's \<open>speed_mps\<close>
  when that is set and not zero, and the setting \<open>DRIVER_SPEED_MPS\<close> otherwise.
\<close>

theorem motion_semantics:
  "has_waypoint a \<Longrightarrow>
   haversine_distance_m rnd (location (driver a)) (the (agent_route a) ! agent_cursor a)
     = Inr d \<Longrightarrow>
     tick rnd settings dt a = Inr (tick_state rnd settings dt a)
     \<and> motion_step d (speed_or (speed_mps (driver a)) (DRIVER_SPEED_MPS settings) * dt) a
         (tick_state rnd settings dt a)
     \<and> (\<forall>s. speed_mps (driver a) = Some s \<and> s \<noteq> 0
            \<longrightarrow> motion_step d (s * dt) a (tick_state rnd settings dt a))"
  using tick_motion[of a rnd d settings dt] by (auto simp: speed_or_def)

lemma agent_stopped_fields:
  "speed_mps (driver agent_stopped) = Some 0" "location (driver agent_stopped) = equator_0"
  "agent_route agent_stopped = Some [equator_180]" "agent_cursor agent_stopped = 0"
  by (simp_all add: agent_stopped_def assign_route_def agent_1_fields)

theorem motion_semantics_witness:
  "has_waypoint (assign_route agent_1 [equator_180] None)
   \<and> haversine_distance_m exact (location (driver (assign_route agent_1 [equator_180] None)))
       (the (agent_route (assign_route agent_1 [equator_180] None))
          ! agent_cursor (assign_route agent_1 [equator_180] None)) = Inr (6371000 * pi)
   \<and> tick exact default_settings 1 (assign_route agent_1 [equator_180] None)
       = Inr (tick_state exact default_settings 1 (assign_route agent_1 [equator_180] None))
   \<and> motion_step (6371000 * pi) (10 * 1) (assign_route agent_1 [equator_180] None)
       (tick_state exact default_settings 1 (assign_route agent_1 [equator_180] None))"
proof -
  let ?a = "assign_route agent_1 [equator_180] None"
  have h: "has_waypoint ?a"
    by (simp add: has_waypoint_def assign_route_def)
  have d: "haversine_distance_m exact (location (driver ?a))
       (the (agent_route ?a) ! agent_cursor ?a) = Inr (6371000 * pi)"
    by (simp add: assign_route_def agent_1_fields haversine_equator)
  have "speed_mps (driver ?a) = Some 10"
    by (simp add: assign_route_def agent_1_fields)
  with motion_semantics[OF h d, of default_settings 1] h d show ?thesis by simp
qed

text \<open>
  Claim C7 as stated fails for a driver whose \<open>speed_mps\<close> is 0: with \<open>step = 0 * dt\<close> the
  driver would stay where it is, but the tick returns and has moved it at the default
  speed, here along the equator.
\<close>

theorem motion_speed_counterexample:
  "has_waypoint agent_stopped
   \<and> speed_mps (driver agent_stopped) = Some 0
   \<and> haversine_distance_m exact (location (driver agent_stopped))
       (the (agent_route agent_stopped) ! agent_cursor agent_stopped) = Inr (6371000 * pi)
   \<and> tick exact default_settings 1 agent_stopped
       = Inr (tick_state exact default_settings 1 agent_stopped)
   \<and> \<not> motion_step (6371000 * pi) (0 * 1) agent_stopped
         (tick_state exact default_settings 1 agent_stopped)"
proof -
  have h: "has_waypoint agent_stopped"
    by (simp add: has_waypoint_def agent_stopped_fields)
  have d: "haversine_distance_m exact (location (driver agent_stopped))
       (the (agent_route agent_stopped) ! agent_cursor agent_stopped) = Inr (6371000 * pi)"
    by (simp add: agent_stopped_fields haversine_equator)
  have big: "(10::real) < 6371000 * pi" "\<not> (6371000 * pi < (1::real))"
    using pi_ge_two by simp_all
  have m: "motion_step (6371000 * pi) (10 * 1) agent_stopped
         (tick_state exact default_settings 1 agent_stopped)"
    using tick_motion(2)[OF h d, of default_settings 1]
    by (simp add: agent_stopped_fields speed_or_def default_settings_def)
  have "lon (location (driver (tick_state exact default_settings 1 agent_stopped)))
          = 180 * (10 / (6371000 * pi))"
    using m big
    by (simp add: motion_step_def agent_stopped_fields Let_def equator_0_def equator_180_def)
  moreover have "180 * (10 / (6371000 * pi)) \<noteq> (0::real)" by simp
  ultimately have "\<not> motion_step (6371000 * pi) (0 * 1) agent_stopped
      (tick_state exact default_settings 1 agent_stopped)"
    using big
    by (simp add: motion_step_def agent_stopped_fields Let_def equator_0_def equator_180_def)
  with h d tick_motion(1)[OF h d] show ?thesis by (simp add: agent_stopped_fields)
qed

lemma invariant_new: "agent_invariant (new_driver_agent settings i l)"
  by (simp add: agent_invariant_def new_driver_agent_def has_waypoint_def)

lemma invariant_assign: "r \<noteq> [] \<Longrightarrow> agent_invariant (assign_route a r ps)"
  by (simp add: agent_invariant_def assign_route_def has_waypoint_def)

lemma invariant_clear: "agent_invariant (clear_route a)"
  by (simp add: agent_invariant_def clear_route_def has_waypoint_def)

lemma invariant_tick: "agent_invariant a \<Longrightarrow> agent_invariant (tick_state rnd settings dt a)"
  by (auto simp: agent_invariant_def tick_state_def tick_def has_waypoint_def Let_def
      split: option.splits sum.splits)

lemma invariant_call:
  "agent_invariant a \<Longrightarrow> nonempty_route c \<Longrightarrow> agent_invariant (call_agent rnd settings a c)"
  by (cases c) (simp_all add: invariant_assign invariant_clear invariant_tick)

lemma invariant_run:
  "agent_invariant a \<Longrightarrow> list_all nonempty_route cs
     \<Longrightarrow> agent_invariant (run_agent rnd settings a cs)"
  unfolding run_agent_def
  by (induction cs arbitrary: a) (simp_all add: invariant_call)

text \<open>
  Claim C4, as amended. Starting from a new agent, after any calls of \<open>assign_route\<close>
  with non-empty waypoints, \<open>clear_route\<close> and \<open>tick\<close>, whether a tick returns or raises:
  the status is IDLE or EN\_ROUTE; a remaining waypoint (cursor below the length of the
  route) implies EN\_ROUTE, so IDLE implies that none remains; without a stored route
  the agent is IDLE; a stored route is non-empty, is kept when it is finished, and the
  cursor never passes its end. When no waypoint remains, the next tick returns and
  leaves the agent IDLE: the agent is EN\_ROUTE with nothing left only between the tick
  that reaches the last waypoint and the tick after.
\<close>

theorem agent_invariant_kept:
  "list_all nonempty_route cs \<Longrightarrow>
     agent_invariant (run_agent rnd settings (new_driver_agent settings i l) cs)
     \<and> (\<not> has_waypoint (run_agent rnd settings (new_driver_agent settings i l) cs) \<longrightarrow>
          tick rnd settings dt (run_agent rnd settings (new_driver_agent settings i l) cs)
            = Inr (tick_state rnd settings dt
                (run_agent rnd settings (new_driver_agent settings i l) cs))
          \<and> driver_status (driver (tick_state rnd settings dt
               (run_agent rnd settings (new_driver_agent settings i l) cs))) = IDLE)"
  by (simp add: invariant_run invariant_new tick_state_exhausted)

lemma sample_run:
  "run_agent exact default_settings agent_1 [AssignRoute [equator_0] None, Tick 1]
     = (assign_route agent_1 [equator_0] None)
         \<lparr>driver := (driver (assign_route agent_1 [equator_0] None))\<lparr>location := equator_0\<rparr>,
          agent_cursor := 1\<rparr>"
proof -
  let ?a = "assign_route agent_1 [equator_0] None"
  have "tick exact default_settings 1 ?a =
          Inr (?a\<lparr>driver := (driver ?a)\<lparr>location := [equator_0] ! agent_cursor ?a\<rparr>,
             agent_cursor := agent_cursor ?a + 1\<rparr>)"
    by (rule tick_arrive[where d = 0])
       (simp_all add: assign_route_def agent_1_fields haversine_self exact_def speed_or_def
          default_settings_def)
  then show ?thesis by (simp add: run_agent_def tick_state_def) (simp add: assign_route_def)
qed

theorem agent_invariant_kept_witness:
  "list_all nonempty_route [AssignRoute [equator_0] None, Tick 1]
   \<and> agent_invariant (run_agent exact default_settings agent_1 [AssignRoute [equator_0] None, Tick 1])
   \<and> driver_status (driver (tick_state exact default_settings 1
        (run_agent exact default_settings agent_1 [AssignRoute [equator_0] None, Tick 1]))) = IDLE"
proof -
  have v: "list_all nonempty_route [AssignRoute [equator_0] None, Tick 1]" by simp
  have n: "\<not> has_waypoint (run_agent exact default_settings agent_1
      [AssignRoute [equator_0] None, Tick 1])"
    unfolding sample_run by (simp add: has_waypoint_def assign_route_def)
  from agent_invariant_kept[OF v, of exact default_settings "''d1''" equator_0 1] v n
  show ?thesis by (simp add: agent_1_def)
qed

text \<open>
  Claim C4 as stated fails: after a route of one waypoint and the tick that reaches it,
  the agent is EN\_ROUTE and no waypoint remains.
\<close>

theorem spec_invariant_counterexample:
  "list_all nonempty_route [AssignRoute [equator_0] None, Tick 1]
   \<and> \<not> spec_invariant (run_agent exact default_settings agent_1
         [AssignRoute [equator_0] None, Tick 1])"
  unfolding sample_run by (simp add: spec_invariant_def has_waypoint_def assign_route_def)

section \<open>Simulator tick\<close>

lemma tick_loop_map: "simulator_tick_loop tk dt ds = map (\<lambda>d. state_after (tk dt d)) ds"
  by (induction ds) (simp_all add: state_after_def split: sum.splits prod.splits)

lemma state_after_agent_tick:
  "state_after (agent_tick rnd settings dt d) = tick_state rnd settings dt d"
  by (simp add: state_after_def agent_tick_def tick_state_def split: sum.splits)

text \<open>
  Claim C8. When the tick method raises on one driver of the list, the simulator tick
  still returns: the failing driver is left as the failed call left it, and every other
  driver, before or after it in the list, ends in the state its own tick gives, which
  is the state it reaches in a tick of the list without the failing driver.
\<close>

theorem tick_isolation:
  "tk dt bad = Inl (e, bad') \<Longrightarrow>
     simulator_tick_loop tk dt (xs @ bad # ys)
       = map (\<lambda>d. state_after (tk dt d)) xs @ bad' # map (\<lambda>d. state_after (tk dt d)) ys
     \<and> simulator_tick_loop tk dt (xs @ ys)
       = map (\<lambda>d. state_after (tk dt d)) xs @ map (\<lambda>d. state_after (tk dt d)) ys"
  by (simp add: tick_loop_map state_after_def)

lemma agent_2_id: "driver_id (driver agent_2) = ''d2''"
  by (simp add: agent_2_def assign_route_def new_driver_agent_def)

theorem tick_isolation_witness:
  "faulty_tick 1 agent_bad = Inl (Exception ''simulated fault'', agent_bad)
   \<and> simulator_tick_loop faulty_tick 1 [agent_1, agent_bad, agent_2]
       = [tick_state exact default_settings 1 agent_1, agent_bad,
          tick_state exact default_settings 1 agent_2]
   \<and> simulator_tick_loop faulty_tick 1 [agent_1, agent_2]
       = [tick_state exact default_settings 1 agent_1,
          tick_state exact default_settings 1 agent_2]"
proof -
  have b: "faulty_tick 1 agent_bad = Inl (Exception ''simulated fault'', agent_bad)"
    by (simp add: faulty_tick_def agent_bad_def new_driver_agent_def)
  have g: "state_after (faulty_tick 1 agent_1) = tick_state exact default_settings 1 agent_1"
    "state_after (faulty_tick 1 agent_2) = tick_state exact default_settings 1 agent_2"
    by (simp_all add: faulty_tick_def agent_1_fields agent_2_id state_after_agent_tick)
  from tick_isolation[where tk = faulty_tick and dt = 1 and bad = agent_bad
      and xs = "[agent_1]" and ys = "[agent_2]", OF b] b g
  show ?thesis by simp
qed

section \<open>Duration matrix\<close>

text \<open>The loops as folds, for as long as every distance is computed.\<close>

lemma fold_row:
  "i < length mat \<Longrightarrow> k \<le> length (mat ! i) \<Longrightarrow>
     fold (\<lambda>j m. m[i := (m ! i)[j := g j]]) [0..<k] mat
       = mat[i := map g [0..<k] @ drop k (mat ! i)]"
proof (induction k)
  case 0
  then show ?case by simp
next
  case (Suc k)
  then have k: "k < length (mat ! i)" by simp
  have d: "drop k (mat ! i) = (mat ! i) ! k # drop (Suc k) (mat ! i)"
    using k by (simp add: Cons_nth_drop_Suc)
  have "(map g [0..<k] @ drop k (mat ! i))[k := g k]
          = map g [0..<Suc k] @ drop (Suc k) (mat ! i)"
    by (simp add: list_update_append d)
  with Suc show ?case by simp
qed

lemma fold_rows:
  "k \<le> length mat \<Longrightarrow> list_all (\<lambda>row. length row = n) mat \<Longrightarrow>
     fold (\<lambda>i m. fold (\<lambda>j m. m[i := (m ! i)[j := g i j]]) [0..<n] m) [0..<k] mat
       = map (\<lambda>i. map (g i) [0..<n]) [0..<k] @ drop k mat"
proof (induction k)
  case 0
  then show ?case by simp
next
  case (Suc k)
  let ?m = "map (\<lambda>i. map (g i) [0..<n]) [0..<k] @ drop k mat"
  from Suc.prems have k: "k < length mat" by simp
  then have row: "length (mat ! k) = n" using Suc.prems(2) by (simp add: list_all_length)
  have d: "drop k mat = mat ! k # drop (Suc k) mat" using k by (simp add: Cons_nth_drop_Suc)
  have mk: "?m ! k = mat ! k" using k by (simp add: nth_append)
  have "fold (\<lambda>j m. m[k := (m ! k)[j := g k j]]) [0..<n] ?m
          = ?m[k := map (g k) [0..<n] @ drop n (?m ! k)]"
    by (rule fold_row) (use k row mk in simp_all)
  also have "\<dots> = ?m[k := map (g k) [0..<n]]" using row mk by simp
  also have "\<dots> = map (\<lambda>i. map (g i) [0..<n]) [0..<Suc k] @ drop (Suc k) mat"
    by (simp add: list_update_append d)
  finally have "fold (\<lambda>j m. m[k := (m ! k)[j := g k j]]) [0..<n] ?m
      = map (\<lambda>i. map (g i) [0..<n]) [0..<Suc k] @ drop (Suc k) mat" .
  with Suc show ?case by simp
qed

lemma fill_row_fold:
  assumes "\<And>j. j \<in> set js \<Longrightarrow> i \<noteq> j \<Longrightarrow>
             haversine_distance_m rnd (points ! i) (points ! j) = Inr (h i j)"
  shows "fill_row rnd points i js mat
           = Inr (fold (\<lambda>j m. m[i := (m ! i)[j := (if i = j then 0 else h i j / (1111 / 100))]])
                    js mat)"
  using assms
proof (induction js arbitrary: mat)
  case Nil
  show ?case by simp
next
  case (Cons j js)
  have rest: "\<And>mat. fill_row rnd points i js mat
           = Inr (fold (\<lambda>j m. m[i := (m ! i)[j := (if i = j then 0 else h i j / (1111 / 100))]])
                    js mat)"
    by (rule Cons.IH) (simp add: Cons.prems)
  show ?case
  proof (cases "i = j")
    case True
    have "fill_row rnd points i (j # js) mat
            = fill_row rnd points i js (mat[i := (mat ! i)[j := 0]])"
      using True by simp
    also note rest
    finally show ?thesis using True by simp
  next
    case False
    with Cons.prems have "haversine_distance_m rnd (points ! i) (points ! j) = Inr (h i j)"
      by simp
    with False show ?thesis by (simp add: rest del: fill_row.simps(2)) (simp add: rest)
  qed
qed

lemma fill_rows_fold:
  assumes "\<And>i j. i \<in> set is \<Longrightarrow> j < n \<Longrightarrow> i \<noteq> j \<Longrightarrow>
             haversine_distance_m rnd (points ! i) (points ! j) = Inr (h i j)"
  shows "fill_rows rnd points n is mat
           = Inr (fold (\<lambda>i m.
                     fold (\<lambda>j m. m[i := (m ! i)[j := (if i = j then 0 else h i j / (1111 / 100))]])
                       [0..<n] m)
                    is mat)"
  using assms
proof (induction "is" arbitrary: mat)
  case Nil
  show ?case by simp
next
  case (Cons i "is")
  have "fill_row rnd points i [0..<n] mat
           = Inr (fold (\<lambda>j m. m[i := (m ! i)[j := (if i = j then 0 else h i j / (1111 / 100))]])
                    [0..<n] mat)"
    by (rule fill_row_fold) (simp add: Cons.prems)
  then show ?case by (simp add: Cons.IH Cons.prems)
qed

text \<open>
  When every distance between two different points of the list is computed, the
  fallback returns the matrix with zero diagonal and \<open>haversine(p_i, p_j) / 11.11\<close>
  elsewhere; for fewer than two points nothing is computed at all.
\<close>

lemma fallback_matrix_returns:
  assumes "\<And>i j. i < length points \<Longrightarrow> j < length points \<Longrightarrow> i \<noteq> j \<Longrightarrow>
             haversine_distance_m rnd (points ! i) (points ! j) = Inr (h i j)"
  shows "fallback_matrix rnd points =
           Inr (map (\<lambda>i. map (\<lambda>j. if i = j then 0 else h i j / (1111 / 100))
                         [0..<length points])
                  [0..<length points])"
proof -
  have "fill_rows rnd points (length points) [0..<length points]
          (replicate (length points) (replicate (length points) 0))
        = Inr (fold (\<lambda>i m.
                     fold (\<lambda>j m. m[i := (m ! i)[j := (if i = j then 0 else h i j / (1111 / 100))]])
                       [0..<length points] m)
                    [0..<length points]
                    (replicate (length points) (replicate (length points) 0)))"
    by (rule fill_rows_fold) (simp add: assms)
  then show ?thesis
    unfolding fallback_matrix_def Let_def
    by (simp add: fold_rows list_all_length)
qed

lemma duration_matrix_short:
  "length points < 2 \<Longrightarrow> get_duration_matrix rnd self points = Inr [[0]]"
  by (simp add: get_duration_matrix_def)

lemma duration_matrix_returns:
  assumes "table_call self points = None" and "2 \<le> length points"
    and "\<And>i j. i < length points \<Longrightarrow> j < length points \<Longrightarrow> i \<noteq> j \<Longrightarrow>
             haversine_distance_m rnd (points ! i) (points ! j) = Inr (h i j)"
  shows "get_duration_matrix rnd self points =
           Inr (map (\<lambda>i. map (\<lambda>j. if i = j then 0 else h i j / (1111 / 100))
                         [0..<length points])
                  [0..<length points])"
  using assms(1,2) fallback_matrix_returns[of points rnd h, OF assms(3)]
  by (simp add: get_duration_matrix_def)

lemma upt_two: "[0..<2] = [0, Suc 0]"
  by (simp add: eval_nat_numeral upt_rec)

text \<open>
  Claim C9 fails on the code where rounding takes the float \<open>a\<close> of two of the points
  above 1: with the route service down, \<open>get_duration_matrix\<close> for those two points
  returns no matrix but raises the \<open>ValueError\<close> of \<open>math.sqrt\<close>, which the fallback loop
  does not catch.
\<close>

theorem duration_matrix_raises:
  "table_call self [p0, p1] = None \<Longrightarrow> 1 < haversine_a p0 p1 + rnd p0 p1 \<Longrightarrow>
     get_duration_matrix rnd self [p0, p1] = Inl ValueError"
  by (simp add: get_duration_matrix_def fallback_matrix_def upt_two haversine_raises)

theorem duration_matrix_raises_witness:
  "table_call unreachable [north_8, south_8] = None
   \<and> 1 < haversine_a north_8 south_8 + double_rounding north_8 south_8
   \<and> get_duration_matrix double_rounding unreachable [north_8, south_8] = Inl ValueError"
proof -
  have t: "table_call unreachable [north_8, south_8] = None" by (simp add: unreachable_def)
  have r: "1 < haversine_a north_8 south_8 + double_rounding north_8 south_8"
    by (simp add: haversine_a_antipodes double_rounding_antipodes)
  from duration_matrix_raises[where self = unreachable and rnd = double_rounding
      and ?p0.0 = north_8 and ?p1.0 = south_8, OF t r] t r
  show ?thesis by simp
qed

text \<open>For the two points on the equator every distance is computed.\<close>

lemma duration_matrix_sample:
  "get_duration_matrix exact unreachable [equator_0, equator_180]
     = Inr [[0, 6371000 * pi / (1111 / 100)], [6371000 * pi / (1111 / 100), 0]]"
proof -
  have "get_duration_matrix exact unreachable [equator_0, equator_180] =
           Inr (map (\<lambda>i. map (\<lambda>j. if i = j then 0 else 6371000 * pi / (1111 / 100))
                         [0..<length [equator_0, equator_180]])
                  [0..<length [equator_0, equator_180]])"
    by (rule duration_matrix_returns[where h = "\<lambda>i j. 6371000 * pi"])
       (auto simp: unreachable_def less_Suc_eq haversine_equator haversine_equator_back)
  then show ?thesis by (simp add: upt_rec[of 0 "Suc (Suc 0)"] upt_rec[of "Suc 0" "Suc (Suc 0)"])
qed

section \<open>Dispatcher\<close>

lemma pending_pair:
  fixes near far :: nat
  assumes "near < n" "far < n" "near \<noteq> far" "P near" "P far"
    and only: "\<And>k. k < n \<Longrightarrow> P k \<Longrightarrow> k = near \<or> k = far"
  shows "filter P [0..<n] = [min near far, max near far]"
proof (rule sorted_distinct_set_unique)
  show "sorted (filter P [0..<n])" by (simp add: sorted_wrt_filter)
  show "distinct (filter P [0..<n])" by simp
  show "sorted [min near far, max near far]" by simp
  show "distinct [min near far, max near far]" using assms(3) by (simp add: min_def max_def)
  show "set (filter P [0..<n]) = set [min near far, max near far]"
    using assms(1,2,4,5) only by (auto simp: min_def max_def)
qed

lemma keys_pair:
  fixes near far :: nat
  assumes "key near = Inr dn" "key far = Inr df" "dn < df"
  shows "\<exists>keyed. keys_of key [min near far, max near far] = Inr keyed
           \<and> map snd (sort_key fst keyed) = [near, far]"
  using assms by (auto simp: min_def max_def)

lemma assign_loop_busy:
  "list_all (\<lambda>a. driver_status (driver a) \<noteq> IDLE) xs \<Longrightarrow>
     assign_loop rnd routing (xs @ rest) pool pkgs
       = (case assign_loop rnd routing rest pool pkgs of
            Inl (e, rest', pkgs') \<Rightarrow> Inl (e, xs @ rest', pkgs')
          | Inr (rest', pkgs') \<Rightarrow> Inr (xs @ rest', pkgs'))"
  by (induction xs) (auto split: sum.splits)

lemma assign_loop_all_busy:
  "list_all (\<lambda>a. driver_status (driver a) \<noteq> IDLE) xs \<Longrightarrow>
     assign_loop rnd routing xs pool pkgs = Inr (xs, pkgs)"
  using assign_loop_busy[of xs rnd routing "[]" pool pkgs] by simp

text \<open>
  What one dispatcher tick does in a world with exactly one idle driver and exactly two
  pending packages, the pickup of \<open>near\<close> strictly nearer to the driver than that of
  \<open>far\<close>, once both distances are computed: the outcome depends on the two calls of
  \<open>get_route\<close> for the nearer package alone.
\<close>

lemma dispatch_one_idle:
  assumes ds: "drivers sim = xs @ d # ys"
    and busy: "list_all (\<lambda>a. driver_status (driver a) \<noteq> IDLE) (xs @ ys)"
    and idle: "driver_status (driver d) = IDLE"
    and nf: "near < length (packages sim)" "far < length (packages sim)" "near \<noteq> far"
    and pend: "pkg_status (packages sim ! near) = PENDING"
      "pkg_status (packages sim ! far) = PENDING"
    and only: "\<And>k. k < length (packages sim) \<Longrightarrow> pkg_status (packages sim ! k) = PENDING
                 \<Longrightarrow> k = near \<or> k = far"
    and dn: "haversine_distance_m rnd (location (driver d)) (pickup (packages sim ! near)) = Inr dn"
    and df: "haversine_distance_m rnd (location (driver d)) (pickup (packages sim ! far)) = Inr df"
    and closer: "dn < df"
  shows "dispatcher_tick rnd routing sim =
           (case get_route rnd routing (location (driver d)) (pickup (packages sim ! near)) of
              Inl e \<Rightarrow> Inl (e, sim)
            | Inr r1 \<Rightarrow>
                (case get_route rnd routing (pickup (packages sim ! near))
                        (dropoff (packages sim ! near)) of
                   Inl e \<Rightarrow> Inl (e, sim)
                 | Inr r2 \<Rightarrow>
                     Inr (sim\<lparr>drivers := xs @ assign_route d
                                  [location (driver d), pickup (packages sim ! near),
                                   dropoff (packages sim ! near)] (Some [near]) # ys,
                              packages := (packages sim)
                                  [near := mark_assigned (packages sim ! near)
                                             (driver_id (driver d))]\<rparr>)))"
proof -
  let ?ps = "packages sim"
  let ?key = "\<lambda>p. haversine_distance_m rnd (location (driver d)) (pickup (?ps ! p))"
  have bx: "list_all (\<lambda>a. driver_status (driver a) \<noteq> IDLE) xs"
    and bys: "list_all (\<lambda>a. driver_status (driver a) \<noteq> IDLE) ys"
    using busy by simp_all
  have pool: "filter (\<lambda>p. pkg_status (?ps ! p) = PENDING) [0..<length ?ps]
                = [min near far, max near far]"
    using nf pend only by (rule pending_pair)
  have "\<exists>keyed. keys_of ?key [min near far, max near far] = Inr keyed
           \<and> map snd (sort_key fst keyed) = [near, far]"
    using dn df closer by (rule keys_pair)
  then obtain keyed
    where keyed: "keys_of ?key [min near far, max near far] = Inr keyed"
      and srt: "map snd (sort_key fst keyed) = [near, far]"
    by (elim exE conjE)
  have i: "driver_id (driver (assign_route d r ps)) = driver_id (driver d)" for r ps
    by (simp add: assign_route_def)
  have same: "sim\<lparr>drivers := xs @ d # ys, packages := ?ps\<rparr> = sim"
    using ds by simp
  have loop: "assign_loop rnd routing (d # ys) [min near far, max near far] ?ps =
      (case get_route rnd routing (location (driver d)) (pickup (?ps ! near)) of
         Inl e \<Rightarrow> Inl (e, d # ys, ?ps)
       | Inr r1 \<Rightarrow>
           (case get_route rnd routing (pickup (?ps ! near)) (dropoff (?ps ! near)) of
              Inl e \<Rightarrow> Inl (e, d # ys, ?ps)
            | Inr r2 \<Rightarrow>
                Inr (assign_route d [location (driver d), pickup (?ps ! near), dropoff (?ps ! near)]
                       (Some [near]) # ys,
                     ?ps[near := mark_assigned (?ps ! near) (driver_id (driver d))])))"
    using idle
    by (simp add: keyed srt Let_def i assign_loop_all_busy[OF bys] del: keys_of.simps
        split: sum.splits)
  show ?thesis
    unfolding dispatcher_tick_def Let_def pool ds
    using same
    by (simp add: idle assign_loop_busy[OF bx] loop ds del: assign_loop.simps
        split: sum.splits)
qed

text \<open>
  When the two calls of \<open>get_route\<close> return as well, the tick returns: the nearer
  package is assigned to the idle driver, who gets the route from its location over
  pickup to dropoff, and nothing else changes.
\<close>

lemma dispatch_nearest_returns:
  assumes "drivers sim = xs @ d # ys"
    and "list_all (\<lambda>a. driver_status (driver a) \<noteq> IDLE) (xs @ ys)"
    and "driver_status (driver d) = IDLE"
    and "near < length (packages sim)" and "far < length (packages sim)" and "near \<noteq> far"
    and "pkg_status (packages sim ! near) = PENDING"
    and "pkg_status (packages sim ! far) = PENDING"
    and "\<And>k. k < length (packages sim) \<Longrightarrow> pkg_status (packages sim ! k) = PENDING
           \<Longrightarrow> k = near \<or> k = far"
    and "haversine_distance_m rnd (location (driver d)) (pickup (packages sim ! near)) = Inr dn"
    and "haversine_distance_m rnd (location (driver d)) (pickup (packages sim ! far)) = Inr df"
    and "dn < df"
    and "get_route rnd routing (location (driver d)) (pickup (packages sim ! near)) = Inr r1"
    and "get_route rnd routing (pickup (packages sim ! near)) (dropoff (packages sim ! near))
           = Inr r2"
  shows "dispatcher_tick rnd routing sim =
           Inr (sim\<lparr>drivers := xs @ assign_route d
                        [location (driver d), pickup (packages sim ! near),
                         dropoff (packages sim ! near)] (Some [near]) # ys,
                    packages := (packages sim)
                        [near := mark_assigned (packages sim ! near) (driver_id (driver d))]\<rparr>)"
  by (simp add: dispatch_one_idle[OF assms(1-12)] assms(13,14))

lemma get_route_raises:
  "route_call routing p q = None \<Longrightarrow> 1 < haversine_a p q + rnd p q \<Longrightarrow>
     get_route rnd routing p q = Inl ValueError"
  by (simp add: get_route_def haversine_raises)

text \<open>
  Claim C1 fails on the code where rounding takes the float \<open>a\<close> between the pickup and
  the dropoff of the nearer package above 1 and the route service is down. The world
  is that of the claim: one idle driver, two pending packages, both distances from the
  driver computed and strictly different. The fallback of the second \<open>get_route\<close> call
  raises the \<open>ValueError\<close> of \<open>math.sqrt\<close>, and the tick ends there: the simulator is
  unchanged and the nearer package is still PENDING.
\<close>

theorem dispatch_raises:
  assumes "drivers sim = xs @ d # ys"
    and "list_all (\<lambda>a. driver_status (driver a) \<noteq> IDLE) (xs @ ys)"
    and "driver_status (driver d) = IDLE"
    and "near < length (packages sim)" and "far < length (packages sim)" and "near \<noteq> far"
    and "pkg_status (packages sim ! near) = PENDING"
    and "pkg_status (packages sim ! far) = PENDING"
    and "\<forall>k < length (packages sim).
           pkg_status (packages sim ! k) = PENDING \<longrightarrow> k = near \<or> k = far"
    and "haversine_distance_m rnd (location (driver d)) (pickup (packages sim ! near)) = Inr dn"
    and "haversine_distance_m rnd (location (driver d)) (pickup (packages sim ! far)) = Inr df"
    and "dn < df"
    and "get_route rnd routing (location (driver d)) (pickup (packages sim ! near)) = Inr r1"
    and "route_call routing (pickup (packages sim ! near)) (dropoff (packages sim ! near)) = None"
    and "1 < haversine_a (pickup (packages sim ! near)) (dropoff (packages sim ! near))
               + rnd (pickup (packages sim ! near)) (dropoff (packages sim ! near))"
  shows "dispatcher_tick rnd routing sim = Inl (ValueError, sim)
       \<and> pkg_status (packages (state_after (dispatcher_tick rnd routing sim)) ! near) = PENDING"
proof -
  have "dispatcher_tick rnd routing sim = Inl (ValueError, sim)"
  proof -
    have "get_route rnd routing (pickup (packages sim ! near)) (dropoff (packages sim ! near))
            = Inl ValueError"
      using assms(14,15) by (rule get_route_raises)
    then show ?thesis
      by (subst dispatch_one_idle[OF assms(1-8) _ assms(10-12)])
         (use assms(9) in \<open>auto simp: assms(13)\<close>)
  qed
  with assms(7) show ?thesis by (simp add: state_after_def)
qed

lemma atan2_pos: "0 < y \<Longrightarrow> 0 \<le> x \<Longrightarrow> 0 < atan2 y x"
  by (auto simp: atan2_def arctan_less_zero_iff zero_less_arctan_iff)

lemma haversine_pos:
  assumes "rnd p q = 0" and "0 < haversine_a p q"
  shows "\<exists>d. haversine_distance_m rnd p q = Inr d \<and> 0 < d"
proof -
  from haversine_a_range[of p q] have "0 \<le> sqrt (1 - haversine_a p q)" by simp
  moreover from assms(2) have "0 < sqrt (haversine_a p q)" by simp
  ultimately have "0 < atan2 (sqrt (haversine_a p q)) (sqrt (1 - haversine_a p q))"
    by (simp add: atan2_pos)
  then show ?thesis using haversine_value[of rnd p q] assms(1) by simp
qed

lemma haversine_a_sample: "0 < haversine_a north_8 equator_180"
proof -
  have c: "0 < cos (8 * (pi / 180))"
    by (rule cos_gt_zero_pi) (use pi_gt_zero in linarith)+
  have s: "0 \<le> (sin ((0 - 8 * (pi / 180)) / 2))\<^sup>2" by simp
  from s c have "0 < (sin ((0 - 8 * (pi / 180)) / 2))\<^sup>2 + cos (8 * (pi / 180))"
    by (rule add_nonneg_pos)
  then show ?thesis
    by (simp add: haversine_a_def Let_def radians_def north_8_def equator_180_def)
qed

lemma antipodal_fields:
  "drivers antipodal_simulator = [] @ agent_8 # []"
  "packages antipodal_simulator = [pkg_away, pkg_here]"
  "driver_status (driver agent_8) = IDLE" "location (driver agent_8) = north_8"
  "pickup pkg_here = north_8" "dropoff pkg_here = south_8" "pkg_status pkg_here = PENDING"
  "pickup pkg_away = equator_180" "pkg_status pkg_away = PENDING"
  by (simp_all add: antipodal_simulator_def agent_8_def new_driver_agent_def pkg_here_def
      pkg_away_def new_package_def)

lemma double_rounding_elsewhere:
  "double_rounding north_8 north_8 = 0" "double_rounding north_8 equator_180 = 0"
  by (simp_all add: double_rounding_def north_8_def equator_180_def)

theorem dispatch_raises_witness:
  "map pkg_status (packages antipodal_simulator) = [PENDING, PENDING]
   \<and> haversine_distance_m double_rounding (location (driver agent_8)) (pickup pkg_here) = Inr 0
   \<and> route_call unreachable (pickup pkg_here) (dropoff pkg_here) = None
   \<and> 1 < haversine_a (pickup pkg_here) (dropoff pkg_here)
           + double_rounding (pickup pkg_here) (dropoff pkg_here)
   \<and> dispatcher_tick double_rounding unreachable antipodal_simulator
       = Inl (ValueError, antipodal_simulator)
   \<and> pkg_status (packages antipodal_simulator ! 1) = PENDING"
proof -
  let ?sim = antipodal_simulator
  have dn: "haversine_distance_m double_rounding (location (driver agent_8))
              (pickup (packages ?sim ! 1)) = Inr 0"
    by (simp add: antipodal_fields haversine_self double_rounding_elsewhere)
  from haversine_pos[of double_rounding north_8 equator_180]
    double_rounding_elsewhere(2) haversine_a_sample
  obtain df
    where df: "haversine_distance_m double_rounding north_8 equator_180 = Inr df"
      and pos: "0 < df"
    by blast
  have df': "haversine_distance_m double_rounding (location (driver agent_8))
              (pickup (packages ?sim ! 0)) = Inr df"
    by (simp add: antipodal_fields df)
  have r1: "get_route double_rounding unreachable (location (driver agent_8))
              (pickup (packages ?sim ! 1))
            = Inr \<lparr>duration_s = Some 0, distance_m = Some 0\<rparr>"
    by (simp add: get_route_def unreachable_def antipodal_fields haversine_self
        double_rounding_elsewhere)
  have rc: "route_call unreachable (pickup (packages ?sim ! 1)) (dropoff (packages ?sim ! 1))
              = None"
    by (simp add: unreachable_def)
  have up: "1 < haversine_a (pickup (packages ?sim ! 1)) (dropoff (packages ?sim ! 1))
               + double_rounding (pickup (packages ?sim ! 1)) (dropoff (packages ?sim ! 1))"
    by (simp add: antipodal_fields haversine_a_antipodes double_rounding_antipodes)
  have only: "\<forall>k < length (packages ?sim).
           pkg_status (packages ?sim ! k) = PENDING \<longrightarrow> k = 1 \<or> k = 0"
    by (auto simp: antipodal_fields less_Suc_eq)
  have "dispatcher_tick double_rounding unreachable ?sim = Inl (ValueError, ?sim)
       \<and> pkg_status (packages (state_after (dispatcher_tick double_rounding unreachable ?sim))
            ! 1) = PENDING"
    by (rule dispatch_raises[where xs = "[]" and ys = "[]" and d = agent_8 and far = 0
          and dn = 0 and df = df, OF antipodal_fields(1) _ _ _ _ _ _ _ only dn df' pos r1 rc up])
       (simp_all add: antipodal_fields)
  with dn rc up show ?thesis by (simp add: antipodal_fields)
qed


text \<open>
  The same tick where every call returns: in the sample simulator, with exact
  arithmetic, the nearer of the two pending packages goes to the idle driver and the
  others are left alone.
\<close>

lemma sample_packages:
  "pickup pkg_near = equator_0" "pickup pkg_far = equator_180"
  "dropoff pkg_near = equator_180"
  "pkg_status pkg_near = PENDING" "pkg_status pkg_far = PENDING"
  "pkg_status pkg_done = DELIVERED"
  by (simp_all add: pkg_near_def pkg_far_def pkg_done_def new_package_def
      mark_assigned_def mark_in_transit_def mark_delivered_def)

lemma dispatch_sample:
  "packages (state_after (dispatcher_tick exact unreachable sample_simulator))
     = [pkg_far, pkg_done, mark_assigned pkg_near ''d1'']"
proof -
  let ?sim = sample_simulator
  have d: "drivers ?sim = [agent_2] @ agent_1 # []"
    and p: "packages ?sim = [pkg_far, pkg_done, pkg_near]"
    by (simp_all add: sample_simulator_def)
  have b: "driver_status (driver agent_2) = EN_ROUTE"
    by (simp add: agent_2_def assign_route_def)
  have dn: "haversine_distance_m exact (location (driver agent_1)) (pickup (packages ?sim ! 2))
              = Inr 0"
    by (simp add: p agent_1_fields sample_packages haversine_self exact_def)
  have df: "haversine_distance_m exact (location (driver agent_1)) (pickup (packages ?sim ! 0))
              = Inr (6371000 * pi)"
    by (simp add: p agent_1_fields sample_packages haversine_equator)
  have r1: "get_route exact unreachable (location (driver agent_1)) (pickup (packages ?sim ! 2))
              = Inr \<lparr>duration_s = Some 0, distance_m = Some 0\<rparr>"
    by (simp add: get_route_def unreachable_def p agent_1_fields sample_packages
        haversine_self exact_def)
  have r2: "get_route exact unreachable (pickup (packages ?sim ! 2)) (dropoff (packages ?sim ! 2))
              = Inr \<lparr>duration_s = Some (6371000 * pi / (1111 / 100)),
                     distance_m = Some (6371000 * pi)\<rparr>"
    by (simp add: get_route_def unreachable_def p sample_packages haversine_equator)
  have "dispatcher_tick exact unreachable ?sim =
           Inr (?sim\<lparr>drivers := [agent_2] @ assign_route agent_1
                        [location (driver agent_1), pickup (packages ?sim ! 2),
                         dropoff (packages ?sim ! 2)] (Some [2]) # [],
                    packages := (packages ?sim)
                        [2 := mark_assigned (packages ?sim ! 2) (driver_id (driver agent_1))]\<rparr>)"
    by (rule dispatch_nearest_returns[where far = 0 and dn = 0 and df = "6371000 * pi",
          OF d _ _ _ _ _ _ _ _ dn df _ r1 r2])
       (auto simp: p b agent_1_fields sample_packages less_Suc_eq)
  then show ?thesis by (simp add: state_after_def p agent_1_fields)
qed

end
